theory Spec2Isabelle
  imports Main
begin

section \<open>Session setup: the sequential part of main.go\<close>

text \<open>
  The program opens an SSH connection to a bastion host, binds a local TCP
  listener and forwards every accepted local connection through the SSH
  connection. This first part embeds the sequential code that runs before the
  tunnel serves: \<^verbatim>\<open>expandPath\<close>, \<^verbatim>\<open>prepareSSHConfig\<close>,
  \<^verbatim>\<open>waitForTunnelReady\<close>, \<^verbatim>\<open>startTunnel\<close> (up to the point where it
  starts its goroutine) and \<^verbatim>\<open>runTunnel\<close>.

  Go's \<^verbatim>\<open>error\<close> is modelled by its message, a \<^verbatim>\<open>(T, error)\<close> result by
  \<open>error + T\<close> and a bare \<^verbatim>\<open>error\<close> result by \<open>error option\<close> (\<open>None\<close> is
  \<^verbatim>\<open>nil\<close>). Calls that leave the process are recorded, in order, in a list of
  effects returned next to the result.
\<close>

type_synonym error = string

text \<open>\<^verbatim>\<open>time.Duration\<close> counts nanoseconds.\<close>

type_synonym duration = int

definition Millisecond :: duration where
  "Millisecond = 1000000"

definition Second :: duration where
  "Second = 1000 * Millisecond"

subsection \<open>Data\<close>

record environment =
  OpenSearchHost :: string

record config =
  BastionHost :: string
  KeyPath :: string
  Environments :: "string \<rightharpoonup> environment"

text \<open>The package-level defaults of lines 35-39.\<close>

definition localPort :: int where
  "localPort = 5602"

definition remotePort :: int where
  "remotePort = 443"

text \<open>
  The part of \<^verbatim>\<open>ssh.ClientConfig\<close> the program fills in. A signer is what
  \<^verbatim>\<open>ssh.ParsePrivateKey\<close> returns; of the library's host key callbacks only
  \<^verbatim>\<open>ssh.InsecureIgnoreHostKey()\<close> accepts every host key.
\<close>

datatype signer = Signer string

datatype auth_method = PublicKeys signer

datatype host_key_callback = InsecureIgnoreHostKey | FixedHostKey string

record client_config =
  User :: string
  Auth :: "auth_method list"
  HostKeyCallback :: host_key_callback
  Timeout :: duration

text \<open>
  What the operating system and the libraries answer. \<open>DialTimeout i\<close> is the
  answer to the readiness probe's attempt number \<open>i\<close>.
\<close>

record os =
  UserHomeDir :: "error + string"
  Join :: "string \<Rightarrow> string \<Rightarrow> string"
  ReadFile :: "string \<Rightarrow> error + string"
  ParsePrivateKey :: "string \<Rightarrow> error + signer"
  SshDial :: "string \<Rightarrow> client_config \<Rightarrow> error option"
  Listen :: "string \<Rightarrow> error option"
  DialTimeout :: "nat \<Rightarrow> error option"

datatype effect =
    LogPrintf string
  | Print string
  | ReadFileCall string
  | SshDialCall string client_config
  | SignalNotify
  | ListenCall string
  | GoAcceptLoop string int
  | DialTimeoutCall string duration
  | ProbeClose
  | Sleep duration
  | OpenBrowser string

text \<open>The call sites of \<^verbatim>\<open>log.Fatalf\<close> in \<^verbatim>\<open>runTunnel\<close>, with their arguments.\<close>

datatype fatal =
    InvalidEnvironment string
  | InvalidBastionHostFormat
  | PrepareSSHConfigFailed error
  | SshDialFailed error
  | StartTunnelFailed error

datatype outcome = Fatal fatal | Serving

subsection \<open>Formatting and splitting\<close>

text \<open>\<^verbatim>\<open>%d\<close> of \<^verbatim>\<open>fmt.Sprintf\<close>: decimal digits, with a minus sign below zero.\<close>

definition digit :: "nat \<Rightarrow> char" where
  "digit n = ''0123456789'' ! n"

function fmt_nat :: "nat \<Rightarrow> string" where
  "fmt_nat n = (if n < 10 then [digit n] else fmt_nat (n div 10) @ [digit (n mod 10)])"
  by pat_completeness auto
termination
  by (relation "measure id") auto

definition fmt_d :: "int \<Rightarrow> string" where
  "fmt_d i = (if i < 0 then CHR ''-'' # fmt_nat (nat (- i)) else fmt_nat (nat i))"

text \<open>\<^verbatim>\<open>strings.Split\<close> with a separator of one character.\<close>

fun split_on :: "char \<Rightarrow> string \<Rightarrow> string list" where
  "split_on sep [] = [[]]"
| "split_on sep (c # cs) =
     (if c = sep then [] # split_on sep cs
      else (case split_on sep cs of
              [] \<Rightarrow> [[c]]
            | p # ps \<Rightarrow> (c # p) # ps))"

subsection \<open>expandPath and prepareSSHConfig (lines 173-197, 394-406)\<close>

definition expandPath :: "os \<Rightarrow> string \<Rightarrow> effect list \<times> string" where
  "expandPath sys path =
     (if length path = 0 \<or> hd path \<noteq> CHR ''~'' then ([], path)
      else (case UserHomeDir sys of
              Inl err \<Rightarrow> ([LogPrintf (''Error expanding home directory: '' @ err)], path)
            | Inr home \<Rightarrow> ([], Join sys home (tl path))))"

definition prepareSSHConfig :: "os \<Rightarrow> string \<Rightarrow> string \<Rightarrow> effect list \<times> (error + client_config)" where
  "prepareSSHConfig sys keyPath username =
     (case expandPath sys keyPath of
        (fx, expandedKeyPath) \<Rightarrow>
          (case ReadFile sys expandedKeyPath of
             Inl err \<Rightarrow>
               (fx @ [ReadFileCall expandedKeyPath], Inl (''unable to read private key: '' @ err))
           | Inr key \<Rightarrow>
               (case ParsePrivateKey sys key of
                  Inl err \<Rightarrow>
                    (fx @ [ReadFileCall expandedKeyPath],
                     Inl (''unable to parse private key: '' @ err))
                | Inr sg \<Rightarrow>
                    (fx @ [ReadFileCall expandedKeyPath],
                     Inr \<lparr>User = username,
                          Auth = [PublicKeys sg],
                          HostKeyCallback = InsecureIgnoreHostKey,
                          Timeout = 15 * Second\<rparr>))))"

subsection \<open>waitForTunnelReady (lines 279-292)\<close>

definition probe_addr :: "int \<Rightarrow> string" where
  "probe_addr port = ''localhost:'' @ fmt_d port"

text \<open>The \<^verbatim>\<open>for\<close> loop from the value \<open>i\<close> of its counter on.\<close>

function waitLoop :: "os \<Rightarrow> int \<Rightarrow> nat \<Rightarrow> effect list \<times> error option" where
  "waitLoop sys port i =
     (if i < 5 then
        (case DialTimeout sys i of
           None \<Rightarrow> ([DialTimeoutCall (probe_addr port) Second, ProbeClose], None)
         | Some err \<Rightarrow>
             (case waitLoop sys port (i + 1) of
                (fx, r) \<Rightarrow>
                  ([DialTimeoutCall (probe_addr port) Second, Sleep (500 * Millisecond)] @ fx, r)))
      else ([], None))"
  by pat_completeness auto
termination
  by (relation "measure (\<lambda>(sys, port, i). 5 - i)") auto

definition waitForTunnelReady :: "os \<Rightarrow> int \<Rightarrow> effect list \<times> error option" where
  "waitForTunnelReady sys port = waitLoop sys port 0"

subsection \<open>startTunnel (lines 200-244) and runTunnel (lines 78-126)\<close>

text \<open>
  \<^verbatim>\<open>startTunnel\<close> binds the listener, starts the goroutine that accepts
  connections (its behaviour is the transition system of the next section) and
  returns what the readiness probe returns.
\<close>

definition startTunnel :: "os \<Rightarrow> string \<Rightarrow> int \<Rightarrow> int \<Rightarrow> effect list \<times> error option" where
  "startTunnel sys remoteHost lport rport =
     (case Listen sys (''localhost:'' @ fmt_d lport) of
        Some err \<Rightarrow>
          ([ListenCall (''localhost:'' @ fmt_d lport)],
           Some (''failed to start local listener: '' @ err))
      | None \<Rightarrow>
          (case waitForTunnelReady sys lport of
             (fx, r) \<Rightarrow>
               ([ListenCall (''localhost:'' @ fmt_d lport), GoAcceptLoop remoteHost rport] @ fx,
                r)))"

text \<open>
  \<^verbatim>\<open>runTunnel\<close> from line 78 on: \<open>cfg\<close> is what \<^verbatim>\<open>getConfig\<close> returned and
  \<open>env\<close> what \<^verbatim>\<open>getEnvironment\<close> returned. \<open>Serving\<close> means that line 126 was
  reached, where the main goroutine waits for the cancellation.
\<close>

definition runTunnel :: "os \<Rightarrow> config \<Rightarrow> string \<Rightarrow> effect list \<times> outcome" where
  "runTunnel sys cfg env =
     (case Environments cfg env of
        None \<Rightarrow> ([], Fatal (InvalidEnvironment env))
      | Some envConfig \<Rightarrow>
          (let parts = split_on CHR ''@'' (BastionHost cfg) in
           if length parts \<noteq> 2 then ([], Fatal InvalidBastionHostFormat)
           else
             (case prepareSSHConfig sys (KeyPath cfg) (parts ! 0) of
                (fx1, Inl err) \<Rightarrow> (fx1, Fatal (PrepareSSHConfigFailed err))
              | (fx1, Inr sshConfig) \<Rightarrow>
                  (let fx2 = fx1 @ [Print (''Establishing SSH tunnel to '' @ env @ '' environment...''),
                                    SshDialCall (parts ! 1 @ '':22'') sshConfig] in
                   case SshDial sys (parts ! 1 @ '':22'') sshConfig of
                     Some err \<Rightarrow> (fx2, Fatal (SshDialFailed err))
                   | None \<Rightarrow>
                       (case startTunnel sys (OpenSearchHost envConfig) localPort remotePort of
                          (fx3, Some err) \<Rightarrow>
                            (fx2 @ [SignalNotify] @ fx3, Fatal (StartTunnelFailed err))
                        | (fx3, None) \<Rightarrow>
                            (fx2 @ [SignalNotify] @ fx3 @
                               [Print (''Opening browser to https://localhost:'' @ fmt_d localPort
                                       @ ''/_dashboards/''),
                                OpenBrowser (''https://localhost:'' @ fmt_d localPort
                                             @ ''/_dashboards/''),
                                Print ''SSH tunnel established. Press Ctrl+C to close the tunnel and exit''],
                             Serving))))))"


section \<open>The running tunnel: the goroutines as a transition system\<close>

text \<open>
  Once \<^verbatim>\<open>startTunnel\<close> has bound the listener, the program is a set of
  goroutines that share the cancellation context, the listener, the SSH client
  and the channel \<^verbatim>\<open>conns\<close>:
  \<^item> the accept goroutine of \<^verbatim>\<open>startTunnel\<close> (lines 208-240);
  \<^item> the cancellation goroutine it starts (lines 216-223);
  \<^item> the signal goroutine of \<^verbatim>\<open>setupSignalHandler\<close> (lines 298-303);
  \<^item> the main goroutine, waiting in \<^verbatim>\<open>runTunnel\<close> (lines 126-128) with its
    deferred calls of lines 103 and 107;
  \<^item> one \<^verbatim>\<open>handleConnection\<close> per accepted connection (lines 247-267);
  \<^item> two \<^verbatim>\<open>copyData\<close> per connection whose remote dial succeeded (lines 270-276).

  The state holds the shared objects and, for every goroutine, the statement it
  is at. An action lets one goroutine execute that statement; where the
  statement asks the outside world (an accept, a dial, a copy, a signal), the
  action carries the answer. \<open>step\<close> is \<open>None\<close> when the goroutine is blocked
  or the answer is impossible. The scheduler and the outside world are free:
  any list of actions that \<open>run\<close> accepts is an execution.
\<close>

subsection \<open>State\<close>

text \<open>An accepted local connection, and the remote connection dialed for it.\<close>

type_synonym conn = nat

datatype io_error = EOF | IOError string

text \<open>
  Line 262 starts \<^verbatim>\<open>copyData(localConn, remoteConn, done)\<close>, which copies from
  the remote connection to the local one; line 263 starts the other direction.
\<close>

datatype direction = RemoteToLocal | LocalToRemote

datatype accept_pc =
    Accepting
  | AcceptFailed error
  | AcceptCloseConns
  | AcceptCloseListener
  | AcceptReturned

datatype cancel_pc =
    CancelWait
  | CancelCloseListener
  | CancelRange
  | CancelCloseConn conn
  | CancelReturned

datatype signal_pc = SignalWait | SignalCancel | SignalCloseClient | SignalReturned

datatype main_pc = MainWait | MainCancel | MainCloseClient | MainExited

datatype handler_pc =
    NotAccepted
  | Registering
  | Dialing
  | WaitDone
  | CloseRemote
  | CloseLocal
  | HandlerReturned
  | HandlerPanicked

datatype copy_pc = NotStarted | Running | CopyReturned

text \<open>
  \<^item> \<open>cancelled\<close>: \<^verbatim>\<open>cancel()\<close> was called, \<^verbatim>\<open>ctx.Done()\<close> is closed and
    \<^verbatim>\<open>ctx.Err()\<close> is not nil;
  \<^item> \<open>conns\<close>: the values buffered in the channel \<^verbatim>\<open>conns\<close>, oldest first;
  \<^item> \<open>done_chan c\<close>: how many values the channel \<^verbatim>\<open>done\<close> of the handler of
    \<open>c\<close> holds;
  \<^item> \<open>local_closed\<close>, \<open>remote_closed\<close>: the connections on which \<^verbatim>\<open>Close\<close>
    was called;
  \<^item> \<open>logs\<close>: the lines written by \<^verbatim>\<open>log.Printf\<close>; \<open>stdout\<close>: those written by
    \<^verbatim>\<open>fmt.Println\<close>;
  \<^item> \<open>panicked\<close>: a goroutine panicked, which ends the process.
\<close>

record tunnel =
  cancelled :: bool
  listener_closed :: bool
  client_closed :: bool
  conns :: "conn list"
  conns_closed :: bool
  local_closed :: "conn set"
  remote_closed :: "conn set"
  done_chan :: "conn \<Rightarrow> nat"
  accepter :: accept_pc
  canceller :: cancel_pc
  signaller :: signal_pc
  mainr :: main_pc
  handler :: "conn \<Rightarrow> handler_pc"
  copier :: "conn \<Rightarrow> direction \<Rightarrow> copy_pc"
  logs :: "string list"
  stdout :: "string list"
  panicked :: bool

text \<open>Line 212: \<^verbatim>\<open>make(chan net.Conn, 10)\<close>; line 261: \<^verbatim>\<open>make(chan bool, 2)\<close>.\<close>

definition conns_capacity :: nat where
  "conns_capacity = 10"

definition done_capacity :: nat where
  "done_capacity = 2"

text \<open>
  The state in which \<^verbatim>\<open>startTunnel\<close> leaves the program: the listener is
  bound, the accept goroutine is about to call \<^verbatim>\<open>Accept\<close>, the cancellation
  goroutine and the signal goroutine wait.
\<close>

definition init :: tunnel where
  "init =
     \<lparr>cancelled = False, listener_closed = False, client_closed = False,
      conns = [], conns_closed = False,
      local_closed = {}, remote_closed = {},
      done_chan = (\<lambda>c. 0),
      accepter = Accepting, canceller = CancelWait, signaller = SignalWait, mainr = MainWait,
      handler = (\<lambda>c. NotAccepted), copier = (\<lambda>c d. NotStarted),
      logs = [], stdout = [], panicked = False\<rparr>"

subsection \<open>Actions\<close>

datatype action =
    Interrupt
  | SignalStep
  | MainStep
  | AcceptReturns "error + conn"
  | AcceptStep
  | CancelStep
  | HandlerStep conn
  | DialReturns conn "error option"
  | CopyReturns conn direction "io_error option"

text \<open>The connection whose handler or copier an action belongs to.\<close>

fun conn_of :: "action \<Rightarrow> conn option" where
  "conn_of (AcceptReturns (Inr c)) = Some c"
| "conn_of (HandlerStep c) = Some c"
| "conn_of (DialReturns c r) = Some c"
| "conn_of (CopyReturns c d r) = Some c"
| "conn_of a = None"

subsection \<open>setupSignalHandler (lines 295-304)\<close>

text \<open>
  \<open>Interrupt\<close>: the operating system delivers SIGINT or SIGTERM, the goroutine
  receives it from its channel and prints. \<open>SignalStep\<close>: \<^verbatim>\<open>cancel()\<close>, then
  \<^verbatim>\<open>client.Close()\<close>.
\<close>

definition interrupt :: "tunnel \<Rightarrow> tunnel option" where
  "interrupt s =
     (if signaller s = SignalWait
      then Some (s\<lparr>stdout := stdout s @ [CHR 0x0A # ''Closing SSH tunnel...''],
                  signaller := SignalCancel\<rparr>)
      else None)"

definition signal_step :: "tunnel \<Rightarrow> tunnel option" where
  "signal_step s =
     (case signaller s of
        SignalCancel \<Rightarrow> Some (s\<lparr>cancelled := True, signaller := SignalCloseClient\<rparr>)
      | SignalCloseClient \<Rightarrow> Some (s\<lparr>client_closed := True, signaller := SignalReturned\<rparr>)
      | _ \<Rightarrow> None)"

subsection \<open>The end of runTunnel (lines 126-128, deferred calls of lines 107 and 103)\<close>

text \<open>
  The main goroutine waits for \<^verbatim>\<open>ctx.Done()\<close>, prints, and returns: its deferred
  calls run last in, first out, \<^verbatim>\<open>cancel()\<close> before \<^verbatim>\<open>client.Close()\<close>. When it
  has returned the process exits.
\<close>

definition main_step :: "tunnel \<Rightarrow> tunnel option" where
  "main_step s =
     (case mainr s of
        MainWait \<Rightarrow>
          if cancelled s
          then Some (s\<lparr>stdout := stdout s @ [''SSH tunnel closed''], mainr := MainCancel\<rparr>)
          else None
      | MainCancel \<Rightarrow> Some (s\<lparr>cancelled := True, mainr := MainCloseClient\<rparr>)
      | MainCloseClient \<Rightarrow> Some (s\<lparr>client_closed := True, mainr := MainExited\<rparr>)
      | MainExited \<Rightarrow> None)"

subsection \<open>The accept goroutine of startTunnel (lines 208-240)\<close>

text \<open>
  \<open>AcceptReturns (Inr c)\<close>: \<^verbatim>\<open>listener.Accept()\<close> returns a new connection and
  line 238 starts its handler; a closed listener returns no connection.
  \<open>AcceptReturns (Inl err)\<close>: it returns an error. \<open>AcceptStep\<close>: the test of
  \<^verbatim>\<open>ctx.Err()\<close> on lines 230-234 and, after the \<^verbatim>\<open>return\<close>, the deferred
  \<^verbatim>\<open>close(conns)\<close> and \<^verbatim>\<open>listener.Close()\<close>.
\<close>

definition accept_returns :: "tunnel \<Rightarrow> error + conn \<Rightarrow> tunnel option" where
  "accept_returns s r =
     (if accepter s \<noteq> Accepting then None
      else (case r of
              Inl err \<Rightarrow> Some (s\<lparr>accepter := AcceptFailed err\<rparr>)
            | Inr c \<Rightarrow>
                if listener_closed s \<or> handler s c \<noteq> NotAccepted then None
                else Some (s\<lparr>handler := (handler s)(c := Registering)\<rparr>)))"

definition accept_step :: "tunnel \<Rightarrow> tunnel option" where
  "accept_step s =
     (case accepter s of
        AcceptFailed err \<Rightarrow>
          if cancelled s then Some (s\<lparr>accepter := AcceptCloseConns\<rparr>)
          else Some (s\<lparr>logs := logs s @ [''Error accepting connection: '' @ err],
                      accepter := Accepting\<rparr>)
      | AcceptCloseConns \<Rightarrow> Some (s\<lparr>conns_closed := True, accepter := AcceptCloseListener\<rparr>)
      | AcceptCloseListener \<Rightarrow> Some (s\<lparr>listener_closed := True, accepter := AcceptReturned\<rparr>)
      | _ \<Rightarrow> None)"

subsection \<open>The cancellation goroutine of startTunnel (lines 216-223)\<close>

text \<open>
  It waits for the cancellation, closes the listener and ranges over \<^verbatim>\<open>conns\<close>:
  each value received is closed; the loop ends when the channel is closed and
  empty, and blocks while it is open and empty.
\<close>

definition cancel_step :: "tunnel \<Rightarrow> tunnel option" where
  "cancel_step s =
     (case canceller s of
        CancelWait \<Rightarrow> if cancelled s then Some (s\<lparr>canceller := CancelCloseListener\<rparr>) else None
      | CancelCloseListener \<Rightarrow> Some (s\<lparr>listener_closed := True, canceller := CancelRange\<rparr>)
      | CancelRange \<Rightarrow>
          (case conns s of
             c # cs \<Rightarrow> Some (s\<lparr>conns := cs, canceller := CancelCloseConn c\<rparr>)
           | [] \<Rightarrow> if conns_closed s then Some (s\<lparr>canceller := CancelReturned\<rparr>) else None)
      | CancelCloseConn c \<Rightarrow>
          Some (s\<lparr>local_closed := insert c (local_closed s), canceller := CancelRange\<rparr>)
      | CancelReturned \<Rightarrow> None)"

subsection \<open>handleConnection (lines 247-267)\<close>

text \<open>
  \<open>HandlerStep c\<close> at \<open>Registering\<close> is the send of line 249: it panics on a
  closed channel, blocks on a full one and appends otherwise. At \<open>WaitDone\<close> it
  is the receive of line 266; at \<open>CloseRemote\<close> and \<open>CloseLocal\<close> the deferred
  calls of lines 258 and 250. \<open>DialReturns c r\<close> is the return of
  \<^verbatim>\<open>client.Dial\<close> on line 253: with an error the handler logs and returns; with a
  connection, which a closed client does not give, it makes \<^verbatim>\<open>done\<close> and starts
  the two copiers.
\<close>

definition handler_step :: "tunnel \<Rightarrow> conn \<Rightarrow> tunnel option" where
  "handler_step s c =
     (case handler s c of
        Registering \<Rightarrow>
          if conns_closed s
          then Some (s\<lparr>handler := (handler s)(c := HandlerPanicked), panicked := True\<rparr>)
          else if length (conns s) < conns_capacity
          then Some (s\<lparr>conns := conns s @ [c], handler := (handler s)(c := Dialing)\<rparr>)
          else None
      | WaitDone \<Rightarrow>
          if 0 < done_chan s c
          then Some (s\<lparr>done_chan := (done_chan s)(c := done_chan s c - 1),
                      handler := (handler s)(c := CloseRemote)\<rparr>)
          else None
      | CloseRemote \<Rightarrow>
          Some (s\<lparr>remote_closed := insert c (remote_closed s),
                 handler := (handler s)(c := CloseLocal)\<rparr>)
      | CloseLocal \<Rightarrow>
          Some (s\<lparr>local_closed := insert c (local_closed s),
                 handler := (handler s)(c := HandlerReturned)\<rparr>)
      | _ \<Rightarrow> None)"

definition dial_returns :: "tunnel \<Rightarrow> conn \<Rightarrow> error option \<Rightarrow> tunnel option" where
  "dial_returns s c r =
     (if handler s c \<noteq> Dialing then None
      else (case r of
              Some err \<Rightarrow>
                Some (s\<lparr>logs := logs s @ [''Failed to connect to remote host: '' @ err],
                       handler := (handler s)(c := CloseLocal)\<rparr>)
            | None \<Rightarrow>
                if client_closed s then None
                else Some (s\<lparr>done_chan := (done_chan s)(c := 0),
                            handler := (handler s)(c := WaitDone),
                            copier := (copier s)(c := (\<lambda>d. Running))\<rparr>)))"

subsection \<open>copyData (lines 270-276)\<close>

text \<open>
  \<open>CopyReturns c d r\<close>: \<^verbatim>\<open>io.Copy\<close> returns \<open>r\<close>, an error other than
  \<^verbatim>\<open>io.EOF\<close> is logged, and \<^verbatim>\<open>true\<close> is sent on \<^verbatim>\<open>done\<close>.
\<close>

definition copy_message :: "io_error option \<Rightarrow> string list" where
  "copy_message r =
     (case r of
        None \<Rightarrow> []
      | Some EOF \<Rightarrow> []
      | Some (IOError m) \<Rightarrow> [''Error copying data: '' @ m])"

definition copy_returns :: "tunnel \<Rightarrow> conn \<Rightarrow> direction \<Rightarrow> io_error option \<Rightarrow> tunnel option" where
  "copy_returns s c d r =
     (if copier s c d \<noteq> Running \<or> \<not> done_chan s c < done_capacity then None
      else Some (s\<lparr>done_chan := (done_chan s)(c := done_chan s c + 1),
                  copier := (copier s)(c := (copier s c)(d := CopyReturned)),
                  logs := logs s @ copy_message r\<rparr>))"

subsection \<open>Executions\<close>

text \<open>No goroutine moves once the process has ended.\<close>

definition alive :: "tunnel \<Rightarrow> bool" where
  "alive s = (\<not> panicked s \<and> mainr s \<noteq> MainExited)"

fun dispatch :: "tunnel \<Rightarrow> action \<Rightarrow> tunnel option" where
  "dispatch s Interrupt = interrupt s"
| "dispatch s SignalStep = signal_step s"
| "dispatch s MainStep = main_step s"
| "dispatch s (AcceptReturns r) = accept_returns s r"
| "dispatch s AcceptStep = accept_step s"
| "dispatch s CancelStep = cancel_step s"
| "dispatch s (HandlerStep c) = handler_step s c"
| "dispatch s (DialReturns c r) = dial_returns s c r"
| "dispatch s (CopyReturns c d r) = copy_returns s c d r"

definition step :: "tunnel \<Rightarrow> action \<Rightarrow> tunnel option" where
  "step s a = (if alive s then dispatch s a else None)"

fun run :: "tunnel \<Rightarrow> action list \<Rightarrow> tunnel option" where
  "run s [] = Some s"
| "run s (a # as) = (case step s a of None \<Rightarrow> None | Some s' \<Rightarrow> run s' as)"

section \<open>Example inputs\<close>

text \<open>
  A machine on which the key file exists and parses, the bastion answers, the
  local port is free and the readiness probe succeeds at its third attempt; and
  a configuration file with one environment.
\<close>

definition example_os :: os where
  "example_os =
     \<lparr>UserHomeDir = Inr ''/home/u'',
      Join = (\<lambda>a b. a @ b),
      ReadFile = (\<lambda>p. if p = ''/home/u/key.pem'' then Inr ''KEY'' else Inl ''no such file''),
      ParsePrivateKey = (\<lambda>k. if k = ''KEY'' then Inr (Signer k) else Inl ''ssh: no key found''),
      SshDial = (\<lambda>a c. None),
      Listen = (\<lambda>a. if a = ''localhost:5602'' then None else Some ''address already in use''),
      DialTimeout = (\<lambda>i. if i < 2 then Some ''connection refused'' else None)\<rparr>"

definition example_config :: config where
  "example_config =
     \<lparr>BastionHost = ''u@b'',
      KeyPath = ''~/key.pem'',
      Environments = [''staging'' \<mapsto> \<lparr>OpenSearchHost = ''os''\<rparr>]\<rparr>"

subsection \<open>Invariants of the executions\<close>

text \<open>
  What holds in every state an execution reaches from \<open>init\<close>. The first
  relates the positions of the goroutines to the cancellation: nothing of the
  teardown happens before \<^verbatim>\<open>cancel()\<close>, and the cancellation goroutine is past
  line 218 only when the listener is closed.
\<close>

definition teardown_inv :: "tunnel \<Rightarrow> bool" where
  "teardown_inv s =
     ((signaller s = SignalCloseClient \<or> signaller s = SignalReturned \<longrightarrow> cancelled s) \<and>
      (mainr s \<noteq> MainWait \<longrightarrow> cancelled s) \<and>
      (canceller s \<noteq> CancelWait \<longrightarrow> cancelled s) \<and>
      (accepter s = AcceptCloseConns \<or> accepter s = AcceptCloseListener \<or> accepter s = AcceptReturned
         \<longrightarrow> cancelled s) \<and>
      (client_closed s \<longrightarrow> cancelled s) \<and>
      (listener_closed s \<longrightarrow> cancelled s) \<and>
      (conns_closed s \<longrightarrow> cancelled s) \<and>
      (canceller s \<noteq> CancelWait \<and> canceller s \<noteq> CancelCloseListener \<longrightarrow> listener_closed s))"

text \<open>
  Copiers exist only for a handler that is past a successful dial.
\<close>

definition copier_inv :: "tunnel \<Rightarrow> conn \<Rightarrow> bool" where
  "copier_inv s c =
     (handler s c = NotAccepted \<or> handler s c = Registering \<or> handler s c = Dialing
        \<longrightarrow> (\<forall>d. copier s c d = NotStarted))"

text \<open>
  A handler past line 249 has its connection in \<^verbatim>\<open>conns\<close>, unless the
  cancellation goroutine has entered its loop and taken the connection out to
  close it.
\<close>

definition registry_inv :: "tunnel \<Rightarrow> conn \<Rightarrow> bool" where
  "registry_inv s c =
     (handler s c = Dialing \<or> handler s c = WaitDone \<or> handler s c = CloseRemote \<or>
      handler s c = CloseLocal \<or> handler s c = HandlerReturned
        \<longrightarrow> c \<in> set (conns s) \<or>
            (canceller s \<noteq> CancelWait \<and> canceller s \<noteq> CancelCloseListener \<and>
             (canceller s = CancelCloseConn c \<or> c \<in> local_closed s)))"

text \<open>
  A handler on the way out that never started a copier.
\<close>

definition never_copies :: "tunnel \<Rightarrow> conn \<Rightarrow> bool" where
  "never_copies s c =
     ((handler s c = CloseLocal \<or> handler s c = HandlerReturned) \<and> (\<forall>d. copier s c d = NotStarted))"

text \<open>
  No interrupt has been delivered: nothing of the teardown has begun, the
  cancellation goroutine waits and the accept goroutine is in its loop.
\<close>

definition quiet :: "tunnel \<Rightarrow> bool" where
  "quiet s =
     (\<not> cancelled s \<and> \<not> conns_closed s \<and> signaller s = SignalWait \<and> mainr s = MainWait \<and>
      canceller s = CancelWait \<and> (accepter s = Accepting \<or> (\<exists>err. accepter s = AcceptFailed err)))"

subsection \<open>Example states\<close>

text \<open>
  \<open>dialing_state\<close>: connection 0 was accepted and registered, its handler is
  at the remote dial. \<open>draining_state\<close>: from there, an interrupt arrived, the
  signal goroutine called \<^verbatim>\<open>cancel()\<close>, and the cancellation goroutine closed
  the listener and received connection 0 from \<^verbatim>\<open>conns\<close>.
\<close>

definition dialing_state :: tunnel where
  "dialing_state = init\<lparr>conns := [0], handler := (handler init)(0 := Dialing)\<rparr>"

definition draining_state :: tunnel where
  "draining_state =
     dialing_state\<lparr>cancelled := True, listener_closed := True, conns := [],
                    canceller := CancelCloseConn 0, signaller := SignalCloseClient,
                    stdout := [CHR 0x0A # ''Closing SSH tunnel...'']\<rparr>"

section \<open>Properties of the session setup\<close>

subsection \<open>Auxiliary facts\<close>

declare fmt_nat.simps [simp del]

declare waitLoop.simps [simp del]

lemma waitLoop_done: "waitLoop sys port 5 = ([], None)"
  by (subst waitLoop.simps) simp

lemma waitLoop_ok:
  "i < 5 \<Longrightarrow> DialTimeout sys i = None \<Longrightarrow>
   waitLoop sys port i = ([DialTimeoutCall (probe_addr port) Second, ProbeClose], None)"
  by (subst waitLoop.simps) simp

lemma waitLoop_fail:
  "i < 5 \<Longrightarrow> DialTimeout sys i = Some err \<Longrightarrow>
   waitLoop sys port i =
     ([DialTimeoutCall (probe_addr port) Second, Sleep (500 * Millisecond)] @ fst (waitLoop sys port (Suc i)),
      snd (waitLoop sys port (Suc i)))"
  by (subst waitLoop.simps) (simp split: prod.splits)

lemma waitLoop_shape:
  "i \<le> 5 \<Longrightarrow> \<exists>k. i \<le> k \<and> k \<le> 5 \<and> (\<forall>j. i \<le> j \<and> j < k \<longrightarrow> DialTimeout sys j \<noteq> None) \<and>
     (k < 5 \<longrightarrow> DialTimeout sys k = None) \<and>
     waitLoop sys port i =
       (concat (replicate (k - i) [DialTimeoutCall (probe_addr port) Second, Sleep (500 * Millisecond)])
        @ (if k < 5 then [DialTimeoutCall (probe_addr port) Second, ProbeClose] else []), None)"
proof (induction "5 - i" arbitrary: i)
  case 0
  then have "i = 5" by simp
  then show ?case using waitLoop_done[of sys port] by (intro exI[of _ 5]) auto
next
  case (Suc n)
  then have lt: "i < 5" by simp
  show ?case
  proof (cases "DialTimeout sys i")
    case None
    with lt waitLoop_ok[OF lt None, of port] show ?thesis by (intro exI[of _ i]) auto
  next
    case (Some err)
    from Suc.hyps(2) lt have "n = 5 - Suc i" "Suc i \<le> 5" by simp_all
    from Suc.hyps(1)[OF this] obtain k where k: "Suc i \<le> k" "k \<le> 5"
      "\<forall>j. Suc i \<le> j \<and> j < k \<longrightarrow> DialTimeout sys j \<noteq> None"
      "k < 5 \<longrightarrow> DialTimeout sys k = None"
      "waitLoop sys port (Suc i) =
        (concat (replicate (k - Suc i) [DialTimeoutCall (probe_addr port) Second, Sleep (500 * Millisecond)])
         @ (if k < 5 then [DialTimeoutCall (probe_addr port) Second, ProbeClose] else []), None)"
      by blast
    have fail: "\<forall>j. i \<le> j \<and> j < k \<longrightarrow> DialTimeout sys j \<noteq> None"
    proof (intro allI impI)
      fix j assume "i \<le> j \<and> j < k"
      then have "j = i \<or> (Suc i \<le> j \<and> j < k)" by arith
      with Some k(3) show "DialTimeout sys j \<noteq> None" by auto
    qed
    from k(1) have rep: "k - i = Suc (k - Suc i)" by arith
    have "waitLoop sys port i =
       (concat (replicate (k - i) [DialTimeoutCall (probe_addr port) Second, Sleep (500 * Millisecond)])
        @ (if k < 5 then [DialTimeoutCall (probe_addr port) Second, ProbeClose] else []), None)"
      unfolding waitLoop_fail[OF lt Some] k(5) rep by simp
    moreover from k(1) have "i \<le> k" by simp
    ultimately show ?thesis using k(2,4) fail by blast
  qed
qed

lemma waitLoop_effects:
  "e \<in> set (fst (waitLoop sys port i)) \<Longrightarrow>
   e = DialTimeoutCall (probe_addr port) Second \<or> e = Sleep (500 * Millisecond) \<or> e = ProbeClose"
proof (induction sys port i rule: waitLoop.induct)
  case (1 sys port i)
  show ?case
  proof (cases "i < 5")
    case False
    with "1.prems" show ?thesis by (subst (asm) waitLoop.simps) simp
  next
    case lt: True
    show ?thesis
    proof (cases "DialTimeout sys i")
      case None
      with lt "1.prems" show ?thesis using waitLoop_ok[OF lt None, of port] by auto
    next
      case (Some err)
      with lt "1.prems" "1.IH"[OF lt Some] show ?thesis
        using waitLoop_fail[OF lt Some, of port] by auto
    qed
  qed
qed

lemma waitLoop_no_listen: "ListenCall a \<notin> set (fst (waitLoop sys port i))"
  using waitLoop_effects[of "ListenCall a" sys port i] by auto

lemma expandPath_effects:
  "e \<in> set (fst (expandPath sys path)) \<Longrightarrow> \<exists>m. e = LogPrintf m"
  by (auto simp: expandPath_def split: if_splits sum.splits)

lemma prepareSSHConfig_effects:
  "e \<in> set (fst (prepareSSHConfig sys keyPath username)) \<Longrightarrow>
   (\<exists>m. e = LogPrintf m) \<or> (\<exists>p. e = ReadFileCall p)"
  using expandPath_effects[of e sys keyPath]
  by (auto simp: prepareSSHConfig_def split: prod.splits sum.splits)

lemma prepareSSHConfig_Inr:
  "snd (prepareSSHConfig sys keyPath username) = Inr c \<Longrightarrow>
   \<exists>key sg. ReadFile sys (snd (expandPath sys keyPath)) = Inr key \<and> ParsePrivateKey sys key = Inr sg \<and>
     c = \<lparr>User = username, Auth = [PublicKeys sg],
          HostKeyCallback = InsecureIgnoreHostKey, Timeout = 15 * Second\<rparr>"
  by (auto simp: prepareSSHConfig_def split: prod.splits sum.splits)

lemma prepareSSHConfig_read_error:
  "ReadFile sys (snd (expandPath sys keyPath)) = Inl e \<Longrightarrow>
   prepareSSHConfig sys keyPath username =
     (fst (expandPath sys keyPath) @ [ReadFileCall (snd (expandPath sys keyPath))],
      Inl (''unable to read private key: '' @ e))"
  by (auto simp: prepareSSHConfig_def split: prod.splits)

lemma prepareSSHConfig_parse_error:
  "ReadFile sys (snd (expandPath sys keyPath)) = Inr key \<Longrightarrow> ParsePrivateKey sys key = Inl e \<Longrightarrow>
   prepareSSHConfig sys keyPath username =
     (fst (expandPath sys keyPath) @ [ReadFileCall (snd (expandPath sys keyPath))],
      Inl (''unable to parse private key: '' @ e))"
  by (auto simp: prepareSSHConfig_def split: prod.splits)

lemma startTunnel_effects:
  "e \<in> set (fst (startTunnel sys remoteHost lport rport)) \<Longrightarrow>
   e = ListenCall (''localhost:'' @ fmt_d lport) \<or> e = GoAcceptLoop remoteHost rport \<or>
   e = DialTimeoutCall (probe_addr lport) Second \<or> e = Sleep (500 * Millisecond) \<or> e = ProbeClose"
  using waitLoop_effects[of e sys lport 0]
  by (auto simp: startTunnel_def waitForTunnelReady_def split: option.splits prod.splits)

lemma runTunnel_reaches_prepare:
  assumes "Environments cfg env = Some ec" and "split_on CHR ''@'' (BastionHost cfg) = [user, host]"
  shows "runTunnel sys cfg env =
     (case prepareSSHConfig sys (KeyPath cfg) user of
        (fx1, Inl err) \<Rightarrow> (fx1, Fatal (PrepareSSHConfigFailed err))
      | (fx1, Inr sshConfig) \<Rightarrow>
          (let fx2 = fx1 @ [Print (''Establishing SSH tunnel to '' @ env @ '' environment...''),
                            SshDialCall (host @ '':22'') sshConfig] in
           case SshDial sys (host @ '':22'') sshConfig of
             Some err \<Rightarrow> (fx2, Fatal (SshDialFailed err))
           | None \<Rightarrow>
               (case startTunnel sys (OpenSearchHost ec) localPort remotePort of
                  (fx3, Some err) \<Rightarrow>
                    (fx2 @ [SignalNotify] @ fx3, Fatal (StartTunnelFailed err))
                | (fx3, None) \<Rightarrow>
                    (fx2 @ [SignalNotify] @ fx3 @
                       [Print (''Opening browser to https://localhost:'' @ fmt_d localPort
                               @ ''/_dashboards/''),
                        OpenBrowser (''https://localhost:'' @ fmt_d localPort
                                     @ ''/_dashboards/''),
                        Print ''SSH tunnel established. Press Ctrl+C to close the tunnel and exit''],
                     Serving))))"
  unfolding runTunnel_def using assms
  by (simp add: Let_def split: prod.splits sum.splits option.splits)

lemma runTunnel_stops_early:
  "Environments cfg env = None \<or> length (split_on CHR ''@'' (BastionHost cfg)) \<noteq> 2 \<Longrightarrow>
   fst (runTunnel sys cfg env) = [] \<and> (\<exists>f. snd (runTunnel sys cfg env) = Fatal f)"
  unfolding runTunnel_def by (auto split: option.splits)

lemma length_two: "length xs = 2 \<Longrightarrow> \<exists>a b. xs = [a, b]"
  by (cases xs; simp; cases "tl xs"; auto)

lemma example_expandPath: "expandPath example_os ''~/key.pem'' = ([], ''/home/u/key.pem'')"
  by (simp add: expandPath_def example_os_def)

lemma example_prepare:
  "prepareSSHConfig example_os ''~/key.pem'' ''u'' =
     ([ReadFileCall ''/home/u/key.pem''],
      Inr \<lparr>User = ''u'', Auth = [PublicKeys (Signer ''KEY'')],
           HostKeyCallback = InsecureIgnoreHostKey, Timeout = 15 * Second\<rparr>)"
  unfolding prepareSSHConfig_def example_expandPath by (simp add: example_os_def)

lemma example_split: "split_on CHR ''@'' (BastionHost example_config) = [''u'', ''b'']"
  by (simp add: example_config_def)

lemma example_env: "Environments example_config ''staging'' = Some \<lparr>OpenSearchHost = ''os''\<rparr>"
  by (simp add: example_config_def)

subsection \<open>The SSH client configuration\<close>

text \<open>
  Claim C6. The configuration that \<^verbatim>\<open>prepareSSHConfig\<close> returns has a timeout of
  15 seconds (\<open>15 * Second\<close>, that is 15000000000 nanoseconds) and the host key
  callback that accepts every host key, so the identity of the host is not
  verified. Every SSH dial that \<^verbatim>\<open>runTunnel\<close> makes uses a configuration returned
  by \<^verbatim>\<open>prepareSSHConfig\<close> and goes to port 22 of the host named after the
  \<^verbatim>\<open>@\<close> of the bastion setting.
\<close>

theorem ssh_client_config:
  "(snd (prepareSSHConfig sys keyPath username) = Inr c \<longrightarrow>
      Timeout c = 15 * Second \<and> 15 * Second = 15000000000 \<and>
      HostKeyCallback c = InsecureIgnoreHostKey \<and> User c = username) \<and>
   (SshDialCall addr c' \<in> set (fst (runTunnel sys cfg env)) \<longrightarrow>
      (\<exists>user host. split_on CHR ''@'' (BastionHost cfg) = [user, host] \<and> addr = host @ '':22'' \<and>
         snd (prepareSSHConfig sys (KeyPath cfg) user) = Inr c'))"
proof (intro conjI impI)
  assume "snd (prepareSSHConfig sys keyPath username) = Inr c"
  from prepareSSHConfig_Inr[OF this]
  show "Timeout c = 15 * Second" "HostKeyCallback c = InsecureIgnoreHostKey" "User c = username"
    by auto
next
  show "15 * Second = 15000000000" by (simp add: Second_def Millisecond_def)
next
  assume dial: "SshDialCall addr c' \<in> set (fst (runTunnel sys cfg env))"
  show "\<exists>user host. split_on CHR ''@'' (BastionHost cfg) = [user, host] \<and> addr = host @ '':22'' \<and>
         snd (prepareSSHConfig sys (KeyPath cfg) user) = Inr c'"
  proof (cases "Environments cfg env = None \<or> length (split_on CHR ''@'' (BastionHost cfg)) \<noteq> 2")
    case True
    from runTunnel_stops_early[OF this, of sys] dial show ?thesis by simp
  next
    case False
    then obtain ec where ec: "Environments cfg env = Some ec" by auto
    from False have "length (split_on CHR ''@'' (BastionHost cfg)) = 2" by simp
    from length_two[OF this] obtain user host
      where sp: "split_on CHR ''@'' (BastionHost cfg) = [user, host]" by blast
    have nofx1: "SshDialCall addr c' \<notin> set (fst (prepareSSHConfig sys (KeyPath cfg) user))"
      using prepareSSHConfig_effects[of "SshDialCall addr c'" sys "KeyPath cfg" user] by auto
    have nofx3: "SshDialCall addr c' \<notin> set (fst (startTunnel sys (OpenSearchHost ec) localPort remotePort))"
      using startTunnel_effects[of "SshDialCall addr c'" sys "OpenSearchHost ec" localPort remotePort] by auto
    from dial nofx1 nofx3 have "addr = host @ '':22'' \<and> snd (prepareSSHConfig sys (KeyPath cfg) user) = Inr c'"
      unfolding runTunnel_reaches_prepare[OF ec sp]
      by (auto simp: Let_def split: prod.splits sum.splits option.splits)
    with sp show ?thesis by blast
  qed
qed

theorem ssh_client_config_witness:
  "snd (prepareSSHConfig example_os ''~/key.pem'' ''u'') =
     Inr \<lparr>User = ''u'', Auth = [PublicKeys (Signer ''KEY'')],
          HostKeyCallback = InsecureIgnoreHostKey, Timeout = 15000000000\<rparr> \<and>
   SshDialCall ''b:22'' \<lparr>User = ''u'', Auth = [PublicKeys (Signer ''KEY'')],
          HostKeyCallback = InsecureIgnoreHostKey, Timeout = 15000000000\<rparr>
     \<in> set (fst (runTunnel example_os example_config ''staging'')) \<and>
   split_on CHR ''@'' (BastionHost example_config) = [''u'', ''b'']"
proof -
  let ?c = "\<lparr>User = ''u'', Auth = [PublicKeys (Signer ''KEY'')],
          HostKeyCallback = InsecureIgnoreHostKey, Timeout = 15000000000\<rparr>"
  have sec: "15 * Second = 15000000000" by (simp add: Second_def Millisecond_def)
  have kp: "KeyPath example_config = ''~/key.pem''" by (simp add: example_config_def)
  have sd: "SshDial example_os a c = None" for a c by (simp add: example_os_def)
  have h1: "snd (prepareSSHConfig example_os ''~/key.pem'' ''u'') = Inr ?c"
    by (simp add: example_prepare sec)
  have h2: "SshDialCall ''b:22'' ?c \<in> set (fst (runTunnel example_os example_config ''staging''))"
    unfolding runTunnel_reaches_prepare[OF example_env example_split] kp example_prepare
    by (simp add: sec sd Let_def split: prod.splits option.splits)
  from ssh_client_config[of example_os "''~/key.pem''" "''u''" ?c "''b:22''" ?c example_config "''staging''"]
    h1 h2 show ?thesis by (simp add: example_split)
qed

subsection \<open>A key that cannot be read or parsed\<close>

text \<open>
  Claim C7. When the key file cannot be read, or is read but cannot be parsed,
  \<^verbatim>\<open>prepareSSHConfig\<close> returns an error and no configuration, whatever the user
  name. \<^verbatim>\<open>runTunnel\<close> then ends in \<^verbatim>\<open>log.Fatalf\<close> with that error (when the
  environment exists and the bastion setting has the form user@host; otherwise
  it has already ended in an earlier \<^verbatim>\<open>log.Fatalf\<close>): it never serves, never
  dials the bastion and never binds the listener.
\<close>

theorem bad_key_is_fatal:
  assumes "ReadFile sys (snd (expandPath sys (KeyPath cfg))) = Inl e \<or>
           (\<exists>key. ReadFile sys (snd (expandPath sys (KeyPath cfg))) = Inr key \<and>
                  ParsePrivateKey sys key = Inl e)"
  shows "(\<forall>username. snd (prepareSSHConfig sys (KeyPath cfg) username) =
            Inl ((case ReadFile sys (snd (expandPath sys (KeyPath cfg))) of
                    Inl _ \<Rightarrow> ''unable to read private key: ''
                  | Inr _ \<Rightarrow> ''unable to parse private key: '') @ e)) \<and>
         (Environments cfg env \<noteq> None \<and> length (split_on CHR ''@'' (BastionHost cfg)) = 2 \<longrightarrow>
            snd (runTunnel sys cfg env) =
              Fatal (PrepareSSHConfigFailed
                ((case ReadFile sys (snd (expandPath sys (KeyPath cfg))) of
                    Inl _ \<Rightarrow> ''unable to read private key: ''
                  | Inr _ \<Rightarrow> ''unable to parse private key: '') @ e))) \<and>
         snd (runTunnel sys cfg env) \<noteq> Serving \<and>
         (\<forall>a c. SshDialCall a c \<notin> set (fst (runTunnel sys cfg env))) \<and>
         (\<forall>a. ListenCall a \<notin> set (fst (runTunnel sys cfg env)))"
proof -
  let ?msg = "(case ReadFile sys (snd (expandPath sys (KeyPath cfg))) of
                    Inl _ \<Rightarrow> ''unable to read private key: ''
                  | Inr _ \<Rightarrow> ''unable to parse private key: '') @ e"
  have prep: "snd (prepareSSHConfig sys (KeyPath cfg) username) = Inl ?msg" for username
    using assms prepareSSHConfig_read_error[of sys "KeyPath cfg" e username]
      prepareSSHConfig_parse_error[of sys "KeyPath cfg" _ e username]
    by auto
  have reach: "snd (runTunnel sys cfg env) = Fatal (PrepareSSHConfigFailed ?msg) \<and>
      fst (runTunnel sys cfg env) = fst (prepareSSHConfig sys (KeyPath cfg) user)"
    if ec: "Environments cfg env = Some ec"
      and sp: "split_on CHR ''@'' (BastionHost cfg) = [user, host]" for ec user host
    unfolding runTunnel_reaches_prepare[OF ec sp] using prep[of user]
    by (auto split: prod.splits sum.splits)
  have all: "snd (runTunnel sys cfg env) \<noteq> Serving \<and>
         (\<forall>a c. SshDialCall a c \<notin> set (fst (runTunnel sys cfg env))) \<and>
         (\<forall>a. ListenCall a \<notin> set (fst (runTunnel sys cfg env)))"
  proof (cases "Environments cfg env = None \<or> length (split_on CHR ''@'' (BastionHost cfg)) \<noteq> 2")
    case True
    from runTunnel_stops_early[OF this, of sys] show ?thesis by auto
  next
    case False
    then obtain ec where ec: "Environments cfg env = Some ec" by auto
    from False have "length (split_on CHR ''@'' (BastionHost cfg)) = 2" by simp
    from length_two[OF this] obtain user host
      where sp: "split_on CHR ''@'' (BastionHost cfg) = [user, host]" by blast
    from reach[OF ec sp] prepareSSHConfig_effects[of _ sys "KeyPath cfg" user]
    show ?thesis by auto
  qed
  have "snd (runTunnel sys cfg env) = Fatal (PrepareSSHConfigFailed ?msg)"
    if "Environments cfg env \<noteq> None \<and> length (split_on CHR ''@'' (BastionHost cfg)) = 2"
  proof -
    from that obtain ec where ec: "Environments cfg env = Some ec" by auto
    from that length_two obtain user host
      where sp: "split_on CHR ''@'' (BastionHost cfg) = [user, host]" by blast
    from reach[OF ec sp] show ?thesis by simp
  qed
  with prep all show ?thesis by blast
qed

theorem bad_key_is_fatal_witness:
  "ReadFile (example_os\<lparr>ParsePrivateKey := (\<lambda>k. Inl ''ssh: no key found'')\<rparr>)
      (snd (expandPath (example_os\<lparr>ParsePrivateKey := (\<lambda>k. Inl ''ssh: no key found'')\<rparr>)
             (KeyPath example_config))) = Inr ''KEY'' \<and>
   ParsePrivateKey (example_os\<lparr>ParsePrivateKey := (\<lambda>k. Inl ''ssh: no key found'')\<rparr>) ''KEY''
     = Inl ''ssh: no key found'' \<and>
   snd (prepareSSHConfig (example_os\<lparr>ParsePrivateKey := (\<lambda>k. Inl ''ssh: no key found'')\<rparr>)
          (KeyPath example_config) ''u'') = Inl ''unable to parse private key: ssh: no key found'' \<and>
   snd (runTunnel (example_os\<lparr>ParsePrivateKey := (\<lambda>k. Inl ''ssh: no key found'')\<rparr>)
          example_config ''staging'')
     = Fatal (PrepareSSHConfigFailed ''unable to parse private key: ssh: no key found'')"
proof -
  let ?sys = "example_os\<lparr>ParsePrivateKey := (\<lambda>k. Inl ''ssh: no key found'')\<rparr>"
  have ex: "expandPath ?sys (KeyPath example_config) = ([], ''/home/u/key.pem'')"
    by (simp add: expandPath_def example_os_def example_config_def)
  have h1: "ReadFile ?sys (snd (expandPath ?sys (KeyPath example_config))) = Inr ''KEY''"
    unfolding ex by (simp add: example_os_def)
  have h2: "ParsePrivateKey ?sys ''KEY'' = Inl ''ssh: no key found''" by simp
  have h3: "Environments example_config ''staging'' \<noteq> None \<and>
            length (split_on CHR ''@'' (BastionHost example_config)) = 2"
    by (simp add: example_env example_split)
  from h1 h2 have "ReadFile ?sys (snd (expandPath ?sys (KeyPath example_config))) = Inl ''ssh: no key found'' \<or>
           (\<exists>key. ReadFile ?sys (snd (expandPath ?sys (KeyPath example_config))) = Inr key \<and>
                  ParsePrivateKey ?sys key = Inl ''ssh: no key found'')" by blast
  from bad_key_is_fatal[OF this, of "''staging''"] h1 h2 h3 show ?thesis by simp
qed

subsection \<open>Binding the local listener\<close>

text \<open>
  Claim C8. \<^verbatim>\<open>startTunnel\<close> first calls \<^verbatim>\<open>net.Listen\<close> on
  \<^verbatim>\<open>localhost:\<close> followed by the local port, and never calls it again. When the
  bind fails, \<^verbatim>\<open>startTunnel\<close> has done nothing else (no second attempt, no
  goroutine, no probe) and returns the error to its caller; \<^verbatim>\<open>runTunnel\<close>, once
  it has reached \<^verbatim>\<open>startTunnel\<close>, ends in \<^verbatim>\<open>log.Fatalf\<close> with that error, the
  failed bind being the last thing it did.
\<close>

theorem startTunnel_bind:
  "(\<exists>rest. fst (startTunnel sys remoteHost lport rport) = ListenCall (''localhost:'' @ fmt_d lport) # rest \<and>
           (\<forall>a. ListenCall a \<notin> set rest)) \<and>
   (Listen sys (''localhost:'' @ fmt_d lport) = Some e \<longrightarrow>
      startTunnel sys remoteHost lport rport =
        ([ListenCall (''localhost:'' @ fmt_d lport)], Some (''failed to start local listener: '' @ e))) \<and>
   (Environments cfg env = Some ec \<and> split_on CHR ''@'' (BastionHost cfg) = [user, host] \<and>
    snd (prepareSSHConfig sys (KeyPath cfg) user) = Inr c \<and> SshDial sys (host @ '':22'') c = None \<and>
    Listen sys (''localhost:'' @ fmt_d localPort) = Some e \<longrightarrow>
      snd (runTunnel sys cfg env) = Fatal (StartTunnelFailed (''failed to start local listener: '' @ e)) \<and>
      last (fst (runTunnel sys cfg env)) = ListenCall (''localhost:'' @ fmt_d localPort))"
proof (intro conjI impI)
  show "\<exists>rest. fst (startTunnel sys remoteHost lport rport) = ListenCall (''localhost:'' @ fmt_d lport) # rest \<and>
           (\<forall>a. ListenCall a \<notin> set rest)"
    using waitLoop_no_listen[of _ sys lport 0]
    by (auto simp: startTunnel_def waitForTunnelReady_def split: option.splits prod.splits)
next
  assume "Listen sys (''localhost:'' @ fmt_d lport) = Some e"
  then show "startTunnel sys remoteHost lport rport =
        ([ListenCall (''localhost:'' @ fmt_d lport)], Some (''failed to start local listener: '' @ e))"
    by (simp add: startTunnel_def)
next
  assume a: "Environments cfg env = Some ec \<and> split_on CHR ''@'' (BastionHost cfg) = [user, host] \<and>
    snd (prepareSSHConfig sys (KeyPath cfg) user) = Inr c \<and> SshDial sys (host @ '':22'') c = None \<and>
    Listen sys (''localhost:'' @ fmt_d localPort) = Some e"
  then have ec: "Environments cfg env = Some ec" and sp: "split_on CHR ''@'' (BastionHost cfg) = [user, host]"
    by simp_all
  from a have st: "startTunnel sys (OpenSearchHost ec) localPort remotePort =
        ([ListenCall (''localhost:'' @ fmt_d localPort)], Some (''failed to start local listener: '' @ e))"
    by (simp add: startTunnel_def)
  from a show "snd (runTunnel sys cfg env) = Fatal (StartTunnelFailed (''failed to start local listener: '' @ e))"
    unfolding runTunnel_reaches_prepare[OF ec sp] st
    by (auto simp: Let_def split: prod.splits sum.splits)
  from a show "last (fst (runTunnel sys cfg env)) = ListenCall (''localhost:'' @ fmt_d localPort)"
    unfolding runTunnel_reaches_prepare[OF ec sp] st
    by (auto simp: Let_def split: prod.splits sum.splits)
qed

theorem startTunnel_bind_witness:
  "Listen (example_os\<lparr>Listen := (\<lambda>a. Some ''address already in use'')\<rparr>) (''localhost:'' @ fmt_d 5602)
     = Some ''address already in use'' \<and>
   startTunnel (example_os\<lparr>Listen := (\<lambda>a. Some ''address already in use'')\<rparr>) ''os'' 5602 443 =
     ([ListenCall ''localhost:5602''], Some ''failed to start local listener: address already in use'') \<and>
   snd (runTunnel (example_os\<lparr>Listen := (\<lambda>a. Some ''address already in use'')\<rparr>) example_config ''staging'')
     = Fatal (StartTunnelFailed ''failed to start local listener: address already in use'')"
proof -
  let ?sys = "example_os\<lparr>Listen := (\<lambda>a. Some ''address already in use'')\<rparr>"
  let ?c = "\<lparr>User = ''u'', Auth = [PublicKeys (Signer ''KEY'')],
          HostKeyCallback = InsecureIgnoreHostKey, Timeout = 15 * Second\<rparr>"
  have port: "fmt_d 5602 = ''5602''" by (simp add: fmt_d_def fmt_nat.simps digit_def)
  have ex: "expandPath ?sys ''~/key.pem'' = ([], ''/home/u/key.pem'')"
    by (simp add: expandPath_def example_os_def)
  have prep: "snd (prepareSSHConfig ?sys (KeyPath example_config) ''u'') = Inr ?c"
    unfolding prepareSSHConfig_def by (simp add: example_config_def ex) (simp add: example_os_def)
  have h: "Environments example_config ''staging'' = Some \<lparr>OpenSearchHost = ''os''\<rparr> \<and>
    split_on CHR ''@'' (BastionHost example_config) = [''u'', ''b''] \<and>
    snd (prepareSSHConfig ?sys (KeyPath example_config) ''u'') = Inr ?c \<and>
    SshDial ?sys (''b'' @ '':22'') ?c = None \<and>
    Listen ?sys (''localhost:'' @ fmt_d localPort) = Some ''address already in use''"
    using prep by (simp add: example_env example_split) (simp add: example_os_def)
  have l: "Listen ?sys (''localhost:'' @ fmt_d 5602) = Some ''address already in use''" by simp
  from startTunnel_bind[of ?sys "''os''" 5602 443 "''address already in use''" example_config "''staging''"
      "\<lparr>OpenSearchHost = ''os''\<rparr>" "''u''" "''b''" ?c] h l
  show ?thesis by (simp add: port)
qed

subsection \<open>The readiness probe\<close>

text \<open>
  Claim C9. For every machine there is a number \<open>k\<close> of at most 5 such that the
  first \<open>k\<close> attempts of the probe fail and, when \<open>k < 5\<close>, attempt \<open>k\<close>
  succeeds; \<^verbatim>\<open>waitForTunnelReady\<close> then makes exactly the \<open>k\<close> failed attempts,
  each followed by a sleep of 500 milliseconds, then (when \<open>k < 5\<close>) the
  successful attempt, whose connection it closes, and nothing more. So it makes
  at most 5 attempts, stops at the first success, and in every case returns
  \<^verbatim>\<open>nil\<close>.
\<close>

theorem waitForTunnelReady_probe:
  "\<exists>k\<le>5. (\<forall>i<k. DialTimeout sys i \<noteq> None) \<and> (k < 5 \<longrightarrow> DialTimeout sys k = None) \<and>
     waitForTunnelReady sys port =
       (concat (replicate k [DialTimeoutCall (probe_addr port) Second, Sleep (500 * Millisecond)])
        @ (if k < 5 then [DialTimeoutCall (probe_addr port) Second, ProbeClose] else []), None)"
  using waitLoop_shape[of 0 sys port] unfolding waitForTunnelReady_def by auto

theorem waitForTunnelReady_probe_witness:
  "waitForTunnelReady example_os 5602 =
     ([DialTimeoutCall (probe_addr 5602) Second, Sleep (500 * Millisecond),
       DialTimeoutCall (probe_addr 5602) Second, Sleep (500 * Millisecond),
       DialTimeoutCall (probe_addr 5602) Second, ProbeClose], None)"
proof -
  obtain k where k: "k \<le> 5" "\<forall>i<k. DialTimeout example_os i \<noteq> None"
    "k < 5 \<longrightarrow> DialTimeout example_os k = None"
    "waitForTunnelReady example_os 5602 =
       (concat (replicate k [DialTimeoutCall (probe_addr 5602) Second, Sleep (500 * Millisecond)])
        @ (if k < 5 then [DialTimeoutCall (probe_addr 5602) Second, ProbeClose] else []), None)"
    using waitForTunnelReady_probe[of example_os 5602] by blast
  have "\<not> 2 < k"
  proof
    assume "2 < k"
    with k(2) have "DialTimeout example_os 2 \<noteq> None" by blast
    then show False by (simp add: example_os_def)
  qed
  moreover have "\<not> k < 2"
  proof
    assume "k < 2"
    with k(3) show False by (simp add: example_os_def)
  qed
  ultimately have "k = 2" by simp
  with k(4) show ?thesis by (simp add: numeral_2_eq_2)
qed

section \<open>Properties of the running tunnel\<close>

subsection \<open>What a step can be\<close>

lemmas step_defs = step_def alive_def interrupt_def signal_step_def main_step_def accept_returns_def
  accept_step_def cancel_step_def handler_step_def dial_returns_def copy_returns_def

lemma run_append: "run s (as @ bs) = (case run s as of None \<Rightarrow> None | Some s' \<Rightarrow> run s' bs)"
  by (induction as arbitrary: s) (auto split: option.splits)

lemma run_snoc: "run s (as @ [a]) = (case run s as of None \<Rightarrow> None | Some s' \<Rightarrow> step s' a)"
  by (simp add: run_append split: option.splits)

lemma interrupt_cases:
  "interrupt s = Some s' \<Longrightarrow>
     signaller s = SignalWait \<and>
     s' = s\<lparr>stdout := stdout s @ [CHR 0x0A # ''Closing SSH tunnel...''], signaller := SignalCancel\<rparr>"
  by (auto simp: interrupt_def split: if_splits)

lemma signal_step_cases:
  "signal_step s = Some s' \<Longrightarrow>
     (signaller s = SignalCancel \<and> s' = s\<lparr>cancelled := True, signaller := SignalCloseClient\<rparr>) \<or>
     (signaller s = SignalCloseClient \<and> s' = s\<lparr>client_closed := True, signaller := SignalReturned\<rparr>)"
  by (cases "signaller s") (auto simp: signal_step_def)

lemma main_step_cases:
  "main_step s = Some s' \<Longrightarrow>
     (mainr s = MainWait \<and> cancelled s \<and>
        s' = s\<lparr>stdout := stdout s @ [''SSH tunnel closed''], mainr := MainCancel\<rparr>) \<or>
     (mainr s = MainCancel \<and> s' = s\<lparr>cancelled := True, mainr := MainCloseClient\<rparr>) \<or>
     (mainr s = MainCloseClient \<and> s' = s\<lparr>client_closed := True, mainr := MainExited\<rparr>)"
  by (cases "mainr s") (auto simp: main_step_def split: if_splits)

lemma accept_returns_cases:
  "accept_returns s r = Some s' \<Longrightarrow>
     (\<exists>err. r = Inl err \<and> accepter s = Accepting \<and> s' = s\<lparr>accepter := AcceptFailed err\<rparr>) \<or>
     (\<exists>c. r = Inr c \<and> accepter s = Accepting \<and> \<not> listener_closed s \<and> handler s c = NotAccepted \<and>
          s' = s\<lparr>handler := (handler s)(c := Registering)\<rparr>)"
  by (cases r) (auto simp: accept_returns_def split: if_splits)

lemma accept_step_cases:
  "accept_step s = Some s' \<Longrightarrow>
     (\<exists>err. accepter s = AcceptFailed err \<and> cancelled s \<and> s' = s\<lparr>accepter := AcceptCloseConns\<rparr>) \<or>
     (\<exists>err. accepter s = AcceptFailed err \<and> \<not> cancelled s \<and>
        s' = s\<lparr>logs := logs s @ [''Error accepting connection: '' @ err], accepter := Accepting\<rparr>) \<or>
     (accepter s = AcceptCloseConns \<and> s' = s\<lparr>conns_closed := True, accepter := AcceptCloseListener\<rparr>) \<or>
     (accepter s = AcceptCloseListener \<and> s' = s\<lparr>listener_closed := True, accepter := AcceptReturned\<rparr>)"
  by (cases "accepter s") (auto simp: accept_step_def split: if_splits)

lemma cancel_step_cases:
  "cancel_step s = Some s' \<Longrightarrow>
     (canceller s = CancelWait \<and> cancelled s \<and> s' = s\<lparr>canceller := CancelCloseListener\<rparr>) \<or>
     (canceller s = CancelCloseListener \<and> s' = s\<lparr>listener_closed := True, canceller := CancelRange\<rparr>) \<or>
     (\<exists>c cs. canceller s = CancelRange \<and> conns s = c # cs \<and>
        s' = s\<lparr>conns := cs, canceller := CancelCloseConn c\<rparr>) \<or>
     (canceller s = CancelRange \<and> conns s = [] \<and> conns_closed s \<and> s' = s\<lparr>canceller := CancelReturned\<rparr>) \<or>
     (\<exists>c. canceller s = CancelCloseConn c \<and>
        s' = s\<lparr>local_closed := insert c (local_closed s), canceller := CancelRange\<rparr>)"
  by (cases "canceller s") (auto simp: cancel_step_def split: if_splits list.splits)

lemma handler_step_cases:
  "handler_step s c = Some s' \<Longrightarrow>
    (handler s c = Registering \<and> conns_closed s \<and>
      s' = s\<lparr>handler := (handler s)(c := HandlerPanicked), panicked := True\<rparr>) \<or>
    (handler s c = Registering \<and> \<not> conns_closed s \<and> length (conns s) < conns_capacity \<and>
      s' = s\<lparr>conns := conns s @ [c], handler := (handler s)(c := Dialing)\<rparr>) \<or>
    (handler s c = WaitDone \<and> 0 < done_chan s c \<and>
      s' = s\<lparr>done_chan := (done_chan s)(c := done_chan s c - 1),
              handler := (handler s)(c := CloseRemote)\<rparr>) \<or>
    (handler s c = CloseRemote \<and>
      s' = s\<lparr>remote_closed := insert c (remote_closed s), handler := (handler s)(c := CloseLocal)\<rparr>) \<or>
    (handler s c = CloseLocal \<and>
      s' = s\<lparr>local_closed := insert c (local_closed s), handler := (handler s)(c := HandlerReturned)\<rparr>)"
  by (cases "handler s c") (auto simp: handler_step_def split: if_splits)

lemma dial_returns_cases:
  "dial_returns s c r = Some s' \<Longrightarrow>
     (\<exists>err. r = Some err \<and> handler s c = Dialing \<and>
        s' = s\<lparr>logs := logs s @ [''Failed to connect to remote host: '' @ err],
                handler := (handler s)(c := CloseLocal)\<rparr>) \<or>
     (r = None \<and> handler s c = Dialing \<and> \<not> client_closed s \<and>
        s' = s\<lparr>done_chan := (done_chan s)(c := 0), handler := (handler s)(c := WaitDone),
                copier := (copier s)(c := (\<lambda>d. Running))\<rparr>)"
  by (cases r) (auto simp: dial_returns_def split: if_splits)

lemma copy_returns_cases:
  "copy_returns s c d r = Some s' \<Longrightarrow>
     copier s c d = Running \<and> done_chan s c < done_capacity \<and>
     s' = s\<lparr>done_chan := (done_chan s)(c := done_chan s c + 1),
             copier := (copier s)(c := (copier s c)(d := CopyReturned)),
             logs := logs s @ copy_message r\<rparr>"
  by (auto simp: copy_returns_def split: if_splits)

lemma stepE [consumes 1, case_names Interrupt SignalCancel SignalCloseClient MainWake MainCancel
    MainCloseClient AcceptError AcceptConn AcceptExit AcceptContinue AcceptCloseConns
    AcceptCloseListener CancelWake CancelCloseListener CancelReceive CancelFinish CancelCloseConn
    HandlerPanic HandlerRegister HandlerReceive HandlerCloseRemote HandlerCloseLocal DialFailed
    DialConnected CopyReturns]:
  assumes "step s a = Some s'"
  obtains
    "a = Interrupt" "signaller s = SignalWait"
      "s' = s\<lparr>stdout := stdout s @ [CHR 0x0A # ''Closing SSH tunnel...''], signaller := SignalCancel\<rparr>"
  | "a = SignalStep" "signaller s = SignalCancel"
      "s' = s\<lparr>cancelled := True, signaller := SignalCloseClient\<rparr>"
  | "a = SignalStep" "signaller s = SignalCloseClient"
      "s' = s\<lparr>client_closed := True, signaller := SignalReturned\<rparr>"
  | "a = MainStep" "mainr s = MainWait" "cancelled s"
      "s' = s\<lparr>stdout := stdout s @ [''SSH tunnel closed''], mainr := MainCancel\<rparr>"
  | "a = MainStep" "mainr s = MainCancel" "s' = s\<lparr>cancelled := True, mainr := MainCloseClient\<rparr>"
  | "a = MainStep" "mainr s = MainCloseClient" "s' = s\<lparr>client_closed := True, mainr := MainExited\<rparr>"
  | err where "a = AcceptReturns (Inl err)" "accepter s = Accepting" "s' = s\<lparr>accepter := AcceptFailed err\<rparr>"
  | c where "a = AcceptReturns (Inr c)" "accepter s = Accepting" "\<not> listener_closed s"
      "handler s c = NotAccepted" "s' = s\<lparr>handler := (handler s)(c := Registering)\<rparr>"
  | err where "a = AcceptStep" "accepter s = AcceptFailed err" "cancelled s"
      "s' = s\<lparr>accepter := AcceptCloseConns\<rparr>"
  | err where "a = AcceptStep" "accepter s = AcceptFailed err" "\<not> cancelled s"
      "s' = s\<lparr>logs := logs s @ [''Error accepting connection: '' @ err], accepter := Accepting\<rparr>"
  | "a = AcceptStep" "accepter s = AcceptCloseConns"
      "s' = s\<lparr>conns_closed := True, accepter := AcceptCloseListener\<rparr>"
  | "a = AcceptStep" "accepter s = AcceptCloseListener"
      "s' = s\<lparr>listener_closed := True, accepter := AcceptReturned\<rparr>"
  | "a = CancelStep" "canceller s = CancelWait" "cancelled s" "s' = s\<lparr>canceller := CancelCloseListener\<rparr>"
  | "a = CancelStep" "canceller s = CancelCloseListener"
      "s' = s\<lparr>listener_closed := True, canceller := CancelRange\<rparr>"
  | c cs where "a = CancelStep" "canceller s = CancelRange" "conns s = c # cs"
      "s' = s\<lparr>conns := cs, canceller := CancelCloseConn c\<rparr>"
  | "a = CancelStep" "canceller s = CancelRange" "conns s = []" "conns_closed s"
      "s' = s\<lparr>canceller := CancelReturned\<rparr>"
  | c where "a = CancelStep" "canceller s = CancelCloseConn c"
      "s' = s\<lparr>local_closed := insert c (local_closed s), canceller := CancelRange\<rparr>"
  | c where "a = HandlerStep c" "handler s c = Registering" "conns_closed s"
      "s' = s\<lparr>handler := (handler s)(c := HandlerPanicked), panicked := True\<rparr>"
  | c where "a = HandlerStep c" "handler s c = Registering" "\<not> conns_closed s"
      "length (conns s) < conns_capacity"
      "s' = s\<lparr>conns := conns s @ [c], handler := (handler s)(c := Dialing)\<rparr>"
  | c where "a = HandlerStep c" "handler s c = WaitDone" "0 < done_chan s c"
      "s' = s\<lparr>done_chan := (done_chan s)(c := done_chan s c - 1),
              handler := (handler s)(c := CloseRemote)\<rparr>"
  | c where "a = HandlerStep c" "handler s c = CloseRemote"
      "s' = s\<lparr>remote_closed := insert c (remote_closed s), handler := (handler s)(c := CloseLocal)\<rparr>"
  | c where "a = HandlerStep c" "handler s c = CloseLocal"
      "s' = s\<lparr>local_closed := insert c (local_closed s), handler := (handler s)(c := HandlerReturned)\<rparr>"
  | c err where "a = DialReturns c (Some err)" "handler s c = Dialing"
      "s' = s\<lparr>logs := logs s @ [''Failed to connect to remote host: '' @ err],
              handler := (handler s)(c := CloseLocal)\<rparr>"
  | c where "a = DialReturns c None" "handler s c = Dialing" "\<not> client_closed s"
      "s' = s\<lparr>done_chan := (done_chan s)(c := 0), handler := (handler s)(c := WaitDone),
              copier := (copier s)(c := (\<lambda>d. Running))\<rparr>"
  | c d r where "a = CopyReturns c d r" "copier s c d = Running" "done_chan s c < done_capacity"
      "s' = s\<lparr>done_chan := (done_chan s)(c := done_chan s c + 1),
              copier := (copier s)(c := (copier s c)(d := CopyReturned)),
              logs := logs s @ copy_message r\<rparr>"
proof -
  from assms have d: "dispatch s a = Some s'" by (simp add: step_def split: if_splits)
  show thesis
  proof (cases a)
    case Interrupt
    with d have "interrupt s = Some s'" by simp
    from interrupt_cases[OF this] show ?thesis
      by (elim conjE) (erule (1) that(1)[OF Interrupt])
  next
    case SignalStep
    with d have "signal_step s = Some s'" by simp
    from signal_step_cases[OF this] show ?thesis
      by (elim disjE conjE)
         (erule (1) that(2)[OF SignalStep], erule (1) that(3)[OF SignalStep])
  next
    case MainStep
    with d have "main_step s = Some s'" by simp
    from main_step_cases[OF this] show ?thesis
      by (elim disjE conjE)
         (erule (2) that(4)[OF MainStep], erule (1) that(5)[OF MainStep],
          erule (1) that(6)[OF MainStep])
  next
    case (AcceptReturns r)
    with d have "accept_returns s r = Some s'" by simp
    from accept_returns_cases[OF this] show ?thesis
    proof (elim disjE conjE exE)
      fix err assume "r = Inl err" and rest: "accepter s = Accepting" "s' = s\<lparr>accepter := AcceptFailed err\<rparr>"
      with AcceptReturns have "a = AcceptReturns (Inl err)" by simp
      then show ?thesis using rest by (rule that(7))
    next
      fix c assume "r = Inr c" and rest: "accepter s = Accepting" "\<not> listener_closed s"
        "handler s c = NotAccepted" "s' = s\<lparr>handler := (handler s)(c := Registering)\<rparr>"
      with AcceptReturns have "a = AcceptReturns (Inr c)" by simp
      then show ?thesis using rest by (rule that(8))
    qed
  next
    case AcceptStep
    with d have "accept_step s = Some s'" by simp
    from accept_step_cases[OF this] show ?thesis
      by (elim disjE conjE exE)
         (erule (2) that(9)[OF AcceptStep], erule (2) that(10)[OF AcceptStep],
          erule (1) that(11)[OF AcceptStep], erule (1) that(12)[OF AcceptStep])
  next
    case CancelStep
    with d have "cancel_step s = Some s'" by simp
    from cancel_step_cases[OF this] show ?thesis
      by (elim disjE conjE exE)
         (erule (2) that(13)[OF CancelStep], erule (1) that(14)[OF CancelStep],
          erule (2) that(15)[OF CancelStep], erule (3) that(16)[OF CancelStep],
          erule (1) that(17)[OF CancelStep])
  next
    case (HandlerStep c)
    with d have "handler_step s c = Some s'" by simp
    from handler_step_cases[OF this] show ?thesis
      by (elim disjE conjE)
         (erule (2) that(18)[OF HandlerStep], erule (3) that(19)[OF HandlerStep],
          erule (2) that(20)[OF HandlerStep], erule (1) that(21)[OF HandlerStep],
          erule (1) that(22)[OF HandlerStep])
  next
    case (DialReturns c r)
    with d have "dial_returns s c r = Some s'" by simp
    from dial_returns_cases[OF this] show ?thesis
    proof (elim disjE conjE exE)
      fix err assume "r = Some err" and rest: "handler s c = Dialing"
        "s' = s\<lparr>logs := logs s @ [''Failed to connect to remote host: '' @ err],
                handler := (handler s)(c := CloseLocal)\<rparr>"
      with DialReturns have "a = DialReturns c (Some err)" by simp
      then show ?thesis using rest by (rule that(23))
    next
      assume "r = None" and rest: "handler s c = Dialing" "\<not> client_closed s"
        "s' = s\<lparr>done_chan := (done_chan s)(c := 0), handler := (handler s)(c := WaitDone),
                copier := (copier s)(c := (\<lambda>d. Running))\<rparr>"
      with DialReturns have "a = DialReturns c None" by simp
      then show ?thesis using rest by (rule that(24))
    qed
  next
    case (CopyReturns c dir r)
    with d have "copy_returns s c dir r = Some s'" by simp
    from copy_returns_cases[OF this] show ?thesis
      by (elim conjE) (erule (2) that(25)[OF CopyReturns])
  qed
qed

lemma step_alive: "step s a = Some s' \<Longrightarrow> alive s"
  by (simp add: step_def split: if_splits)

subsection \<open>The invariants hold\<close>

lemma teardown_inv_init: "teardown_inv init"
  by (simp add: teardown_inv_def init_def)

lemma teardown_inv_step:
  assumes "step s a = Some s'" and "teardown_inv s"
  shows "teardown_inv s'"
  using assms by (cases rule: stepE) (auto simp: teardown_inv_def)

lemma teardown_inv_run: "run s as = Some s' \<Longrightarrow> teardown_inv s \<Longrightarrow> teardown_inv s'"
  by (induction as arbitrary: s) (auto split: option.splits intro: teardown_inv_step)

lemma copier_inv_step:
  assumes "step s a = Some s'" and "copier_inv s c"
  shows "copier_inv s' c"
  using assms by (cases rule: stepE) (auto simp: copier_inv_def)

lemma copier_inv_run: "run s as = Some s' \<Longrightarrow> copier_inv s c \<Longrightarrow> copier_inv s' c"
  by (induction as arbitrary: s) (auto split: option.splits intro: copier_inv_step)

lemma registry_inv_step:
  assumes "step s a = Some s'" and "registry_inv s c"
  shows "registry_inv s' c"
  using assms by (cases rule: stepE) (auto simp: registry_inv_def)

lemma registry_inv_run: "run s as = Some s' \<Longrightarrow> registry_inv s c \<Longrightarrow> registry_inv s' c"
  by (induction as arbitrary: s) (auto split: option.splits intro: registry_inv_step)

lemma never_copies_step:
  assumes "step s a = Some s'" and "never_copies s c"
  shows "never_copies s' c"
  using assms by (cases rule: stepE) (auto simp: never_copies_def)

lemma never_copies_run: "run s as = Some s' \<Longrightarrow> never_copies s c \<Longrightarrow> never_copies s' c"
  by (induction as arbitrary: s) (auto split: option.splits intro: never_copies_step)

lemma init_invs: "copier_inv init c" "registry_inv init c"
  by (simp_all add: copier_inv_def registry_inv_def init_def)

lemma quiet_init: "quiet init"
  by (simp add: quiet_def init_def)

lemma quiet_step:
  assumes "step s a = Some s'" and "a \<noteq> Interrupt" and "quiet s"
  shows "quiet s'"
  using assms by (cases rule: stepE) (auto simp: quiet_def)

lemma quiet_run: "run s as = Some s' \<Longrightarrow> Interrupt \<notin> set as \<Longrightarrow> quiet s \<Longrightarrow> quiet s'"
proof (induction as arbitrary: s)
  case Nil
  then show ?case by simp
next
  case (Cons a as)
  from Cons.prems(1) obtain t where t: "step s a = Some t" "run t as = Some s'"
    by (auto split: option.splits)
  from Cons.prems(2) have "a \<noteq> Interrupt" "Interrupt \<notin> set as" by auto
  with quiet_step[OF t(1) _ Cons.prems(3)] Cons.IH[OF t(2)] show ?case by blast
qed

lemma run_dialing_state: "run init [AcceptReturns (Inr 0), HandlerStep 0] = Some dialing_state"
  by (simp add: step_defs init_def conns_capacity_def dialing_state_def)

lemma dialing_state_simps:
  "alive dialing_state" "handler dialing_state 0 = Dialing" "\<not> client_closed dialing_state"
  "logs dialing_state = []" "local_closed dialing_state = {}" "accepter dialing_state = Accepting"
  "\<not> listener_closed dialing_state" "handler dialing_state (Suc 0) = NotAccepted"
  by (simp_all add: dialing_state_def init_def alive_def)

lemma run_draining_state:
  "run init [AcceptReturns (Inr 0), HandlerStep 0, Interrupt, SignalStep, CancelStep, CancelStep, CancelStep]
     = Some draining_state"
  by (simp add: step_defs init_def conns_capacity_def dialing_state_def draining_state_def)

subsection \<open>A full registry blocks every later handler\<close>

text \<open>
  As long as no interrupt is delivered, nothing receives from \<^verbatim>\<open>conns\<close>. Once
  it holds ten values, a handler that is at the send of line 249 stays there,
  and \<^verbatim>\<open>conns\<close> stays as it is, in every continuation without an interrupt.
\<close>

lemma full_registry_step:
  assumes "step s a = Some s'" and "quiet s"
    and "length (conns s) = conns_capacity" and "handler s c = Registering"
  shows "a = Interrupt \<or> (conns s' = conns s \<and> handler s' c = Registering)"
  using assms by (cases rule: stepE) (auto simp: quiet_def)

lemma registration_blocks_until_interrupt:
  "run s bs = Some s' \<Longrightarrow> Interrupt \<notin> set bs \<Longrightarrow> quiet s \<Longrightarrow>
   length (conns s) = conns_capacity \<Longrightarrow> handler s c = Registering \<Longrightarrow>
   conns s' = conns s \<and> handler s' c = Registering"
proof (induction bs arbitrary: s)
  case Nil
  then show ?case by simp
next
  case (Cons b bs)
  from Cons.prems(1) obtain t where t: "step s b = Some t" "run t bs = Some s'"
    by (auto split: option.splits)
  from Cons.prems(2) have ni: "b \<noteq> Interrupt" "Interrupt \<notin> set bs" by auto
  from full_registry_step[OF t(1) Cons.prems(3,4,5)] ni(1)
  have keep: "conns t = conns s" "handler t c = Registering" by auto
  from quiet_step[OF t(1) ni(1) Cons.prems(3)] have "quiet t" .
  from Cons.IH[OF t(2) ni(2) this] keep Cons.prems(4) show ?case by simp
qed

subsection \<open>A remote dial that fails\<close>

text \<open>
  What a failed dial does. Take any state that an execution reaches, in which
  the process is alive and the handler of a connection \<open>c\<close> is at its remote
  dial. When the dial returns an error, the handler logs it, and its next step
  closes the local connection and returns. No copier was started for \<open>c\<close> and
  none is ever started. The two steps change the log, the set of closed local
  connections and the position of this handler, and nothing else; every action
  that does not belong to \<open>c\<close> is enabled afterwards exactly when it was enabled
  at the dial. The entry that the handler put into \<^verbatim>\<open>conns\<close> on line 249 stays
  there.
\<close>

lemma dial_failure_is_isolated:
  assumes "run init as = Some s" and "alive s" and "handler s c = Dialing"
  shows "\<exists>s1 s2.
     step s (DialReturns c (Some err)) = Some s1 \<and> step s1 (HandlerStep c) = Some s2 \<and>
     s2 = s\<lparr>logs := logs s @ [''Failed to connect to remote host: '' @ err],
            local_closed := insert c (local_closed s),
            handler := (handler s)(c := HandlerReturned)\<rparr> \<and>
     (\<forall>d. copier s2 c d = NotStarted) \<and>
     (\<forall>bs s3. run s2 bs = Some s3 \<longrightarrow> handler s3 c = HandlerReturned \<and> (\<forall>d. copier s3 c d = NotStarted)) \<and>
     alive s2 \<and>
     (\<forall>a. conn_of a \<noteq> Some c \<longrightarrow> (step s2 a = None) = (step s a = None))"
proof -
  let ?s1 = "s\<lparr>logs := logs s @ [''Failed to connect to remote host: '' @ err],
               handler := (handler s)(c := CloseLocal)\<rparr>"
  let ?s2 = "s\<lparr>logs := logs s @ [''Failed to connect to remote host: '' @ err],
            local_closed := insert c (local_closed s),
            handler := (handler s)(c := HandlerReturned)\<rparr>"
  have st1: "step s (DialReturns c (Some err)) = Some ?s1"
    using assms(2,3) by (simp add: step_def dial_returns_def)
  have al1: "alive ?s1" using assms(2) by (simp add: alive_def)
  have st2: "step ?s1 (HandlerStep c) = Some ?s2"
    using al1 by (simp add: step_def handler_step_def)
  have al2: "alive ?s2" using assms(2) by (simp add: alive_def)
  from copier_inv_run[OF assms(1) init_invs(1)[of c]] assms(3)
  have nc: "\<forall>d. copier s c d = NotStarted" by (simp add: copier_inv_def)
  then have nc2: "never_copies ?s2 c" by (simp add: never_copies_def)
  have later: "handler s3 c = HandlerReturned \<and> (\<forall>d. copier s3 c d = NotStarted)"
    if r: "run ?s2 bs = Some s3" for bs s3
  proof -
    have ret: "run t bs = Some t' \<Longrightarrow> handler t c = HandlerReturned \<Longrightarrow> handler t' c = HandlerReturned"
      for t t'
    proof (induction bs arbitrary: t)
      case Nil
      then show ?case by simp
    next
      case (Cons b bs)
      from Cons.prems(1) obtain u where u: "step t b = Some u" "run u bs = Some t'"
        by (auto split: option.splits)
      from u(1) Cons.prems(2) have "handler u c = HandlerReturned"
        by (cases rule: stepE) auto
      with Cons.IH[OF u(2)] show ?case .
    qed
    from ret[OF r] never_copies_run[OF r nc2] show ?thesis by (simp add: never_copies_def)
  qed
  have same: "(step ?s2 a = None) = (step s a = None)" if "conn_of a \<noteq> Some c" for a
  proof (cases a)
    case Interrupt
    then show ?thesis using assms(2) al2 by (simp add: step_def interrupt_def)
  next
    case SignalStep
    then show ?thesis using assms(2) al2
      by (cases "signaller s") (simp_all add: step_def signal_step_def)
  next
    case MainStep
    then show ?thesis using assms(2) al2
      by (cases "mainr s") (simp_all add: step_def main_step_def)
  next
    case (AcceptReturns r)
    with that show ?thesis using assms(2) al2
      by (cases r) (simp_all add: step_def accept_returns_def)
  next
    case AcceptStep
    then show ?thesis using assms(2) al2
      by (cases "accepter s") (simp_all add: step_def accept_step_def)
  next
    case CancelStep
    then show ?thesis using assms(2) al2
      by (cases "canceller s"; cases "conns s") (simp_all add: step_def cancel_step_def)
  next
    case (HandlerStep c')
    with that have "c' \<noteq> c" by simp
    with HandlerStep show ?thesis using assms(2) al2
      by (cases "handler s c'") (simp_all add: step_def handler_step_def)
  next
    case (DialReturns c' r)
    with that have "c' \<noteq> c" by simp
    with DialReturns show ?thesis using assms(2) al2
      by (cases r) (simp_all add: step_def dial_returns_def)
  next
    case (CopyReturns c' d r)
    then show ?thesis using assms(2) al2 by (simp add: step_def copy_returns_def)
  qed
  from nc have nc2': "\<forall>d. copier ?s2 c d = NotStarted" by simp
  show ?thesis
    using st1 st2 nc2' later al2 same by blast
qed

lemma dial_failure_is_isolated_example:
  "run init [AcceptReturns (Inr 0), HandlerStep 0] = Some dialing_state \<and> alive dialing_state \<and>
   handler dialing_state 0 = Dialing \<and>
   (\<exists>s1 s2. step dialing_state (DialReturns 0 (Some ''unreachable'')) = Some s1 \<and>
      step s1 (HandlerStep 0) = Some s2 \<and>
      logs s2 = [''Failed to connect to remote host: unreachable''] \<and>
      local_closed s2 = {0} \<and> copier s2 0 LocalToRemote = NotStarted \<and>
      copier s2 0 RemoteToLocal = NotStarted \<and>
      step s2 (AcceptReturns (Inr 1)) \<noteq> None)"
proof -
  have en: "step dialing_state (AcceptReturns (Inr 1)) \<noteq> None"
    by (simp add: step_def accept_returns_def dialing_state_simps)
  from dial_failure_is_isolated[OF run_dialing_state dialing_state_simps(1,2), of "''unreachable''"]
  obtain s1 s2 where h: "step dialing_state (DialReturns 0 (Some ''unreachable'')) = Some s1"
    "step s1 (HandlerStep 0) = Some s2"
    "s2 = dialing_state\<lparr>logs := logs dialing_state @ [''Failed to connect to remote host: '' @ ''unreachable''],
            local_closed := insert 0 (local_closed dialing_state),
            handler := (handler dialing_state)(0 := HandlerReturned)\<rparr>"
    "\<forall>d. copier s2 0 d = NotStarted"
    "\<forall>a. conn_of a \<noteq> Some 0 \<longrightarrow> (step s2 a = None) = (step dialing_state a = None)"
    by blast
  from h(5) en have "step s2 (AcceptReturns (Inr 1)) \<noteq> None" by simp
  moreover from h(3) have "logs s2 = [''Failed to connect to remote host: unreachable'']"
    "local_closed s2 = {0}" by (simp_all add: dialing_state_simps)
  ultimately show ?thesis using h(1,2,4) run_dialing_state dialing_state_simps(1,2) by blast
qed

lemma run_ten_failed_dials:
  "\<exists>s. run init [AcceptReturns (Inr 0), HandlerStep 0, DialReturns 0 (Some ''unreachable''), HandlerStep 0, AcceptReturns (Inr 1), HandlerStep 1, DialReturns 1 (Some ''unreachable''), HandlerStep 1, AcceptReturns (Inr 2), HandlerStep 2, DialReturns 2 (Some ''unreachable''), HandlerStep 2, AcceptReturns (Inr 3), HandlerStep 3, DialReturns 3 (Some ''unreachable''), HandlerStep 3, AcceptReturns (Inr 4), HandlerStep 4, DialReturns 4 (Some ''unreachable''), HandlerStep 4, AcceptReturns (Inr 5), HandlerStep 5, DialReturns 5 (Some ''unreachable''), HandlerStep 5, AcceptReturns (Inr 6), HandlerStep 6, DialReturns 6 (Some ''unreachable''), HandlerStep 6, AcceptReturns (Inr 7), HandlerStep 7, DialReturns 7 (Some ''unreachable''), HandlerStep 7, AcceptReturns (Inr 8), HandlerStep 8, DialReturns 8 (Some ''unreachable''), HandlerStep 8, AcceptReturns (Inr 9), HandlerStep 9, DialReturns 9 (Some ''unreachable''), HandlerStep 9, AcceptReturns (Inr 10)] = Some s \<and>
     conns s = [0, 1, 2, 3, 4, 5, 6, 7, 8, 9] \<and>
     local_closed s = {0, 1, 2, 3, 4, 5, 6, 7, 8, 9} \<and>
     \<not> cancelled s \<and> \<not> conns_closed s \<and> alive s \<and> canceller s = CancelWait \<and>
     handler s 10 = Registering"
  by (simp add: step_defs init_def conns_capacity_def insert_commute)

text \<open>
  Claim C1 fails on the code where it says that subsequent connections are
  served unaffected. Ten connections are accepted one after the other; each is
  registered, its remote dial fails, and its handler closes it and returns.
  With no cancellation, \<^verbatim>\<open>conns\<close> still holds the ten closed connections. The
  eleventh connection is accepted, but the send of line 249 blocks: its handler
  cannot step, its remote dial is not reached, and the cancellation goroutine,
  the only receiver, waits for the cancellation.
\<close>

theorem failed_dials_exhaust_the_registry:
  "map_option conns (run init [AcceptReturns (Inr 0), HandlerStep 0, DialReturns 0 (Some ''unreachable''), HandlerStep 0, AcceptReturns (Inr 1), HandlerStep 1, DialReturns 1 (Some ''unreachable''), HandlerStep 1, AcceptReturns (Inr 2), HandlerStep 2, DialReturns 2 (Some ''unreachable''), HandlerStep 2, AcceptReturns (Inr 3), HandlerStep 3, DialReturns 3 (Some ''unreachable''), HandlerStep 3, AcceptReturns (Inr 4), HandlerStep 4, DialReturns 4 (Some ''unreachable''), HandlerStep 4, AcceptReturns (Inr 5), HandlerStep 5, DialReturns 5 (Some ''unreachable''), HandlerStep 5, AcceptReturns (Inr 6), HandlerStep 6, DialReturns 6 (Some ''unreachable''), HandlerStep 6, AcceptReturns (Inr 7), HandlerStep 7, DialReturns 7 (Some ''unreachable''), HandlerStep 7, AcceptReturns (Inr 8), HandlerStep 8, DialReturns 8 (Some ''unreachable''), HandlerStep 8, AcceptReturns (Inr 9), HandlerStep 9, DialReturns 9 (Some ''unreachable''), HandlerStep 9, AcceptReturns (Inr 10)]) = Some [0, 1, 2, 3, 4, 5, 6, 7, 8, 9] \<and>
   map_option local_closed (run init [AcceptReturns (Inr 0), HandlerStep 0, DialReturns 0 (Some ''unreachable''), HandlerStep 0, AcceptReturns (Inr 1), HandlerStep 1, DialReturns 1 (Some ''unreachable''), HandlerStep 1, AcceptReturns (Inr 2), HandlerStep 2, DialReturns 2 (Some ''unreachable''), HandlerStep 2, AcceptReturns (Inr 3), HandlerStep 3, DialReturns 3 (Some ''unreachable''), HandlerStep 3, AcceptReturns (Inr 4), HandlerStep 4, DialReturns 4 (Some ''unreachable''), HandlerStep 4, AcceptReturns (Inr 5), HandlerStep 5, DialReturns 5 (Some ''unreachable''), HandlerStep 5, AcceptReturns (Inr 6), HandlerStep 6, DialReturns 6 (Some ''unreachable''), HandlerStep 6, AcceptReturns (Inr 7), HandlerStep 7, DialReturns 7 (Some ''unreachable''), HandlerStep 7, AcceptReturns (Inr 8), HandlerStep 8, DialReturns 8 (Some ''unreachable''), HandlerStep 8, AcceptReturns (Inr 9), HandlerStep 9, DialReturns 9 (Some ''unreachable''), HandlerStep 9, AcceptReturns (Inr 10)]) = Some {0, 1, 2, 3, 4, 5, 6, 7, 8, 9} \<and>
   map_option cancelled (run init [AcceptReturns (Inr 0), HandlerStep 0, DialReturns 0 (Some ''unreachable''), HandlerStep 0, AcceptReturns (Inr 1), HandlerStep 1, DialReturns 1 (Some ''unreachable''), HandlerStep 1, AcceptReturns (Inr 2), HandlerStep 2, DialReturns 2 (Some ''unreachable''), HandlerStep 2, AcceptReturns (Inr 3), HandlerStep 3, DialReturns 3 (Some ''unreachable''), HandlerStep 3, AcceptReturns (Inr 4), HandlerStep 4, DialReturns 4 (Some ''unreachable''), HandlerStep 4, AcceptReturns (Inr 5), HandlerStep 5, DialReturns 5 (Some ''unreachable''), HandlerStep 5, AcceptReturns (Inr 6), HandlerStep 6, DialReturns 6 (Some ''unreachable''), HandlerStep 6, AcceptReturns (Inr 7), HandlerStep 7, DialReturns 7 (Some ''unreachable''), HandlerStep 7, AcceptReturns (Inr 8), HandlerStep 8, DialReturns 8 (Some ''unreachable''), HandlerStep 8, AcceptReturns (Inr 9), HandlerStep 9, DialReturns 9 (Some ''unreachable''), HandlerStep 9, AcceptReturns (Inr 10)]) = Some False \<and>
   run init ([AcceptReturns (Inr 0), HandlerStep 0, DialReturns 0 (Some ''unreachable''), HandlerStep 0, AcceptReturns (Inr 1), HandlerStep 1, DialReturns 1 (Some ''unreachable''), HandlerStep 1, AcceptReturns (Inr 2), HandlerStep 2, DialReturns 2 (Some ''unreachable''), HandlerStep 2, AcceptReturns (Inr 3), HandlerStep 3, DialReturns 3 (Some ''unreachable''), HandlerStep 3, AcceptReturns (Inr 4), HandlerStep 4, DialReturns 4 (Some ''unreachable''), HandlerStep 4, AcceptReturns (Inr 5), HandlerStep 5, DialReturns 5 (Some ''unreachable''), HandlerStep 5, AcceptReturns (Inr 6), HandlerStep 6, DialReturns 6 (Some ''unreachable''), HandlerStep 6, AcceptReturns (Inr 7), HandlerStep 7, DialReturns 7 (Some ''unreachable''), HandlerStep 7, AcceptReturns (Inr 8), HandlerStep 8, DialReturns 8 (Some ''unreachable''), HandlerStep 8, AcceptReturns (Inr 9), HandlerStep 9, DialReturns 9 (Some ''unreachable''), HandlerStep 9, AcceptReturns (Inr 10)] @ [HandlerStep 10]) = None \<and>
   run init ([AcceptReturns (Inr 0), HandlerStep 0, DialReturns 0 (Some ''unreachable''), HandlerStep 0, AcceptReturns (Inr 1), HandlerStep 1, DialReturns 1 (Some ''unreachable''), HandlerStep 1, AcceptReturns (Inr 2), HandlerStep 2, DialReturns 2 (Some ''unreachable''), HandlerStep 2, AcceptReturns (Inr 3), HandlerStep 3, DialReturns 3 (Some ''unreachable''), HandlerStep 3, AcceptReturns (Inr 4), HandlerStep 4, DialReturns 4 (Some ''unreachable''), HandlerStep 4, AcceptReturns (Inr 5), HandlerStep 5, DialReturns 5 (Some ''unreachable''), HandlerStep 5, AcceptReturns (Inr 6), HandlerStep 6, DialReturns 6 (Some ''unreachable''), HandlerStep 6, AcceptReturns (Inr 7), HandlerStep 7, DialReturns 7 (Some ''unreachable''), HandlerStep 7, AcceptReturns (Inr 8), HandlerStep 8, DialReturns 8 (Some ''unreachable''), HandlerStep 8, AcceptReturns (Inr 9), HandlerStep 9, DialReturns 9 (Some ''unreachable''), HandlerStep 9, AcceptReturns (Inr 10)] @ [DialReturns 10 None]) = None \<and>
   run init ([AcceptReturns (Inr 0), HandlerStep 0, DialReturns 0 (Some ''unreachable''), HandlerStep 0, AcceptReturns (Inr 1), HandlerStep 1, DialReturns 1 (Some ''unreachable''), HandlerStep 1, AcceptReturns (Inr 2), HandlerStep 2, DialReturns 2 (Some ''unreachable''), HandlerStep 2, AcceptReturns (Inr 3), HandlerStep 3, DialReturns 3 (Some ''unreachable''), HandlerStep 3, AcceptReturns (Inr 4), HandlerStep 4, DialReturns 4 (Some ''unreachable''), HandlerStep 4, AcceptReturns (Inr 5), HandlerStep 5, DialReturns 5 (Some ''unreachable''), HandlerStep 5, AcceptReturns (Inr 6), HandlerStep 6, DialReturns 6 (Some ''unreachable''), HandlerStep 6, AcceptReturns (Inr 7), HandlerStep 7, DialReturns 7 (Some ''unreachable''), HandlerStep 7, AcceptReturns (Inr 8), HandlerStep 8, DialReturns 8 (Some ''unreachable''), HandlerStep 8, AcceptReturns (Inr 9), HandlerStep 9, DialReturns 9 (Some ''unreachable''), HandlerStep 9, AcceptReturns (Inr 10)] @ [CancelStep]) = None"
proof -
  from run_ten_failed_dials obtain s where
    r: "run init [AcceptReturns (Inr 0), HandlerStep 0, DialReturns 0 (Some ''unreachable''), HandlerStep 0, AcceptReturns (Inr 1), HandlerStep 1, DialReturns 1 (Some ''unreachable''), HandlerStep 1, AcceptReturns (Inr 2), HandlerStep 2, DialReturns 2 (Some ''unreachable''), HandlerStep 2, AcceptReturns (Inr 3), HandlerStep 3, DialReturns 3 (Some ''unreachable''), HandlerStep 3, AcceptReturns (Inr 4), HandlerStep 4, DialReturns 4 (Some ''unreachable''), HandlerStep 4, AcceptReturns (Inr 5), HandlerStep 5, DialReturns 5 (Some ''unreachable''), HandlerStep 5, AcceptReturns (Inr 6), HandlerStep 6, DialReturns 6 (Some ''unreachable''), HandlerStep 6, AcceptReturns (Inr 7), HandlerStep 7, DialReturns 7 (Some ''unreachable''), HandlerStep 7, AcceptReturns (Inr 8), HandlerStep 8, DialReturns 8 (Some ''unreachable''), HandlerStep 8, AcceptReturns (Inr 9), HandlerStep 9, DialReturns 9 (Some ''unreachable''), HandlerStep 9, AcceptReturns (Inr 10)] = Some s" and
    p: "conns s = [0, 1, 2, 3, 4, 5, 6, 7, 8, 9]" "local_closed s = {0, 1, 2, 3, 4, 5, 6, 7, 8, 9}"
      "\<not> cancelled s" and
    q: "\<not> conns_closed s" "alive s" "canceller s = CancelWait" "handler s 10 = Registering"
    by blast
  from p(1) have full: "length (conns s) = 10" by simp
  have b1: "step s (HandlerStep 10) = None"
    using q full by (simp add: step_def handler_step_def conns_capacity_def)
  have b2: "step s (DialReturns 10 None) = None"
    using q by (simp add: step_def dial_returns_def)
  have b3: "step s CancelStep = None"
    using q p(3) by (simp add: step_def cancel_step_def)
  show ?thesis
    unfolding run_snoc r using p b1 b2 b3 by simp
qed

subsection \<open>The first copy to finish ends the pair\<close>

text \<open>
  Claim C2. Take any state in which the process is alive, the SSH client is open
  and the handler of \<open>c\<close> is at its remote dial. When the dial succeeds, both
  copiers run, remote to local and local to remote, and the handler waits: it
  cannot move on before a copier has finished. As soon as one copier, of either
  direction \<open>d\<close> and with any result \<open>r\<close>, has finished, the handler's next
  three steps receive from \<^verbatim>\<open>done\<close>, close the remote connection, close the
  local connection and return, while the copier of the other direction is
  still running.
\<close>

theorem first_copy_to_finish_ends_the_pair:
  assumes "alive s" and "handler s c = Dialing" and "\<not> client_closed s"
  shows "\<exists>s1 s2 s3.
     step s (DialReturns c None) = Some s1 \<and>
     copier s1 c RemoteToLocal = Running \<and> copier s1 c LocalToRemote = Running \<and>
     handler s1 c = WaitDone \<and> step s1 (HandlerStep c) = None \<and>
     step s1 (CopyReturns c d r) = Some s2 \<and>
     run s2 [HandlerStep c, HandlerStep c, HandlerStep c] = Some s3 \<and>
     handler s3 c = HandlerReturned \<and>
     remote_closed s3 = insert c (remote_closed s) \<and> local_closed s3 = insert c (local_closed s) \<and>
     copier s3 c d = CopyReturned \<and> (\<forall>d'. d' \<noteq> d \<longrightarrow> copier s3 c d' = Running)"
proof -
  let ?s1 = "s\<lparr>done_chan := (done_chan s)(c := 0), handler := (handler s)(c := WaitDone),
                copier := (copier s)(c := (\<lambda>d. Running))\<rparr>"
  let ?s2 = "?s1\<lparr>done_chan := (done_chan ?s1)(c := done_chan ?s1 c + 1),
                copier := (copier ?s1)(c := (copier ?s1 c)(d := CopyReturned)),
                logs := logs ?s1 @ copy_message r\<rparr>"
  let ?s3 = "?s2\<lparr>done_chan := (done_chan ?s2)(c := done_chan ?s2 c - 1),
                handler := (handler ?s2)(c := CloseRemote)\<rparr>"
  let ?s4 = "?s3\<lparr>remote_closed := insert c (remote_closed ?s3),
                handler := (handler ?s3)(c := CloseLocal)\<rparr>"
  let ?s5 = "?s4\<lparr>local_closed := insert c (local_closed ?s4),
                handler := (handler ?s4)(c := HandlerReturned)\<rparr>"
  have a1: "step s (DialReturns c None) = Some ?s1"
    using assms by (simp add: step_def dial_returns_def)
  have al: "alive ?s1" "alive ?s2" "alive ?s3" "alive ?s4"
    using assms(1) by (simp_all add: alive_def)
  have blocked: "step ?s1 (HandlerStep c) = None"
    using al(1) by (simp add: step_def handler_step_def)
  have a2: "step ?s1 (CopyReturns c d r) = Some ?s2"
    using al(1) by (simp add: step_def copy_returns_def done_capacity_def)
  have a3: "step ?s2 (HandlerStep c) = Some ?s3"
    using al(2) by (simp add: step_def handler_step_def)
  have a4: "step ?s3 (HandlerStep c) = Some ?s4"
    using al(3) by (simp add: step_def handler_step_def)
  have a5: "step ?s4 (HandlerStep c) = Some ?s5"
    using al(4) by (simp add: step_def handler_step_def)
  have r: "run ?s2 [HandlerStep c, HandlerStep c, HandlerStep c] = Some ?s5"
    by (simp only: run.simps a3 a4 a5 option.case)
  have p1: "copier ?s1 c RemoteToLocal = Running \<and> copier ?s1 c LocalToRemote = Running \<and>
     handler ?s1 c = WaitDone" by simp
  have p5: "handler ?s5 c = HandlerReturned \<and>
     remote_closed ?s5 = insert c (remote_closed s) \<and> local_closed ?s5 = insert c (local_closed s) \<and>
     copier ?s5 c d = CopyReturned \<and> (\<forall>d'. d' \<noteq> d \<longrightarrow> copier ?s5 c d' = Running)" by simp
  from a1 p1 blocked a2 r p5 show ?thesis by blast
qed

theorem first_copy_to_finish_ends_the_pair_witness:
  "alive dialing_state \<and> handler dialing_state 0 = Dialing \<and> \<not> client_closed dialing_state \<and>
   (\<exists>s1 s2 s3.
     step dialing_state (DialReturns 0 None) = Some s1 \<and>
     step s1 (HandlerStep 0) = None \<and>
     step s1 (CopyReturns 0 LocalToRemote (Some EOF)) = Some s2 \<and>
     run s2 [HandlerStep 0, HandlerStep 0, HandlerStep 0] = Some s3 \<and>
     handler s3 0 = HandlerReturned \<and> remote_closed s3 = {0} \<and> local_closed s3 = {0} \<and>
     copier s3 0 RemoteToLocal = Running)"
proof -
  from first_copy_to_finish_ends_the_pair[OF dialing_state_simps(1,2,3), of LocalToRemote "Some EOF"]
  obtain s1 s2 s3 where h: "step dialing_state (DialReturns 0 None) = Some s1"
     "step s1 (HandlerStep 0) = None"
     "step s1 (CopyReturns 0 LocalToRemote (Some EOF)) = Some s2"
     "run s2 [HandlerStep 0, HandlerStep 0, HandlerStep 0] = Some s3"
     "handler s3 0 = HandlerReturned"
     "remote_closed s3 = insert 0 (remote_closed dialing_state)"
     "local_closed s3 = insert 0 (local_closed dialing_state)"
     "\<forall>d'. d' \<noteq> LocalToRemote \<longrightarrow> copier s3 0 d' = Running"
    by blast
  from h(6,7) have "remote_closed s3 = {0}" "local_closed s3 = {0}"
    by (simp_all add: dialing_state_def init_def)
  moreover from h(8) have "copier s3 0 RemoteToLocal = Running" by simp
  ultimately show ?thesis using h(1-5) dialing_state_simps(1,2,3) by blast
qed

subsection \<open>The order of the teardown\<close>

text \<open>
  Claim C3, as stated, fails: in the execution below a connection is accepted,
  registered and dialed, an interrupt arrives, and the signal goroutine calls
  \<^verbatim>\<open>cancel()\<close> and \<^verbatim>\<open>client.Close()\<close> before the cancellation goroutine has
  moved. The SSH client is then closed while the listener is open and the
  tracked connection 0 is neither taken from \<^verbatim>\<open>conns\<close> nor closed.
\<close>

theorem transport_closed_before_listener:
  "map_option client_closed
     (run init [AcceptReturns (Inr 0), HandlerStep 0, DialReturns 0 None, Interrupt, SignalStep, SignalStep])
     = Some True \<and>
   map_option listener_closed
     (run init [AcceptReturns (Inr 0), HandlerStep 0, DialReturns 0 None, Interrupt, SignalStep, SignalStep])
     = Some False \<and>
   map_option conns
     (run init [AcceptReturns (Inr 0), HandlerStep 0, DialReturns 0 None, Interrupt, SignalStep, SignalStep])
     = Some [0] \<and>
   map_option local_closed
     (run init [AcceptReturns (Inr 0), HandlerStep 0, DialReturns 0 None, Interrupt, SignalStep, SignalStep])
     = Some {}"
  by (simp add: step_defs init_def conns_capacity_def)

text \<open>
  Claim C3, amended. In every execution: when the cancellation goroutine closes
  a connection it received from \<^verbatim>\<open>conns\<close>, the listener is already closed and
  the cancellation has been triggered; and a step that closes the listener, or
  that closes the SSH client, is taken only after the cancellation has been
  triggered. (Nothing orders the close of the SSH client after the close of the
  listener or of the tracked connections.)
\<close>

theorem teardown_order:
  assumes "run init as = Some s" and "step s a = Some s'"
  shows "(a = CancelStep \<and> canceller s = CancelCloseConn c \<longrightarrow>
            listener_closed s \<and> cancelled s \<and> local_closed s' = insert c (local_closed s)) \<and>
         (listener_closed s' \<and> \<not> listener_closed s \<longrightarrow> cancelled s) \<and>
         (client_closed s' \<and> \<not> client_closed s \<longrightarrow> cancelled s)"
proof -
  from teardown_inv_run[OF assms(1) teardown_inv_init] have inv: "teardown_inv s" .
  from assms(2) inv show ?thesis
    by (cases rule: stepE) (auto simp: teardown_inv_def)
qed

theorem teardown_order_witness:
  "run init [AcceptReturns (Inr 0), HandlerStep 0, Interrupt, SignalStep, CancelStep, CancelStep, CancelStep]
     = Some draining_state \<and>
   canceller draining_state = CancelCloseConn 0 \<and>
   step draining_state CancelStep =
     Some (draining_state\<lparr>local_closed := {0}, canceller := CancelRange\<rparr>) \<and>
   listener_closed draining_state \<and>
   step draining_state SignalStep =
     Some (draining_state\<lparr>client_closed := True, signaller := SignalReturned\<rparr>) \<and>
   \<not> client_closed draining_state \<and> cancelled draining_state"
proof -
  have c: "canceller draining_state = CancelCloseConn 0" "\<not> client_closed draining_state"
    "local_closed draining_state = {}"
    by (simp_all add: draining_state_def dialing_state_def init_def)
  have s1: "step draining_state CancelStep =
     Some (draining_state\<lparr>local_closed := {0}, canceller := CancelRange\<rparr>)"
    by (simp add: step_defs draining_state_def dialing_state_def init_def)
  have s2: "step draining_state SignalStep =
     Some (draining_state\<lparr>client_closed := True, signaller := SignalReturned\<rparr>)"
    by (simp add: step_defs draining_state_def dialing_state_def init_def)
  from teardown_order[OF run_draining_state s1, of 0] teardown_order[OF run_draining_state s2, of 0] c
  have "listener_closed draining_state \<and> cancelled draining_state" by simp
  with run_draining_state c s1 s2 show ?thesis by blast
qed

subsection \<open>The capacity of the registry\<close>

text \<open>
  Claim C4 fails on the code at the eleventh connection. After ten connections
  have been accepted and registered, with no cancellation, \<^verbatim>\<open>conns\<close> holds ten
  values; the eleventh connection is accepted, but the send of line 249 blocks
  (its handler cannot step), so the connection is not registered and its remote
  dial is not reached; the only receiver, the cancellation goroutine, waits for
  the cancellation.
\<close>

theorem eleventh_connection_is_not_registered:
  "map_option conns (run init [AcceptReturns (Inr 0), HandlerStep 0, AcceptReturns (Inr 1), HandlerStep 1, AcceptReturns (Inr 2), HandlerStep 2, AcceptReturns (Inr 3), HandlerStep 3, AcceptReturns (Inr 4), HandlerStep 4, AcceptReturns (Inr 5), HandlerStep 5, AcceptReturns (Inr 6), HandlerStep 6, AcceptReturns (Inr 7), HandlerStep 7, AcceptReturns (Inr 8), HandlerStep 8, AcceptReturns (Inr 9), HandlerStep 9, AcceptReturns (Inr 10)]) = Some [0, 1, 2, 3, 4, 5, 6, 7, 8, 9] \<and>
   map_option cancelled (run init [AcceptReturns (Inr 0), HandlerStep 0, AcceptReturns (Inr 1), HandlerStep 1, AcceptReturns (Inr 2), HandlerStep 2, AcceptReturns (Inr 3), HandlerStep 3, AcceptReturns (Inr 4), HandlerStep 4, AcceptReturns (Inr 5), HandlerStep 5, AcceptReturns (Inr 6), HandlerStep 6, AcceptReturns (Inr 7), HandlerStep 7, AcceptReturns (Inr 8), HandlerStep 8, AcceptReturns (Inr 9), HandlerStep 9, AcceptReturns (Inr 10)]) = Some False \<and>
   run init [AcceptReturns (Inr 0), HandlerStep 0, AcceptReturns (Inr 1), HandlerStep 1, AcceptReturns (Inr 2), HandlerStep 2, AcceptReturns (Inr 3), HandlerStep 3, AcceptReturns (Inr 4), HandlerStep 4, AcceptReturns (Inr 5), HandlerStep 5, AcceptReturns (Inr 6), HandlerStep 6, AcceptReturns (Inr 7), HandlerStep 7, AcceptReturns (Inr 8), HandlerStep 8, AcceptReturns (Inr 9), HandlerStep 9, AcceptReturns (Inr 10), HandlerStep 10] = None \<and>
   run init [AcceptReturns (Inr 0), HandlerStep 0, AcceptReturns (Inr 1), HandlerStep 1, AcceptReturns (Inr 2), HandlerStep 2, AcceptReturns (Inr 3), HandlerStep 3, AcceptReturns (Inr 4), HandlerStep 4, AcceptReturns (Inr 5), HandlerStep 5, AcceptReturns (Inr 6), HandlerStep 6, AcceptReturns (Inr 7), HandlerStep 7, AcceptReturns (Inr 8), HandlerStep 8, AcceptReturns (Inr 9), HandlerStep 9, AcceptReturns (Inr 10), DialReturns 10 None] = None \<and>
   run init [AcceptReturns (Inr 0), HandlerStep 0, AcceptReturns (Inr 1), HandlerStep 1, AcceptReturns (Inr 2), HandlerStep 2, AcceptReturns (Inr 3), HandlerStep 3, AcceptReturns (Inr 4), HandlerStep 4, AcceptReturns (Inr 5), HandlerStep 5, AcceptReturns (Inr 6), HandlerStep 6, AcceptReturns (Inr 7), HandlerStep 7, AcceptReturns (Inr 8), HandlerStep 8, AcceptReturns (Inr 9), HandlerStep 9, AcceptReturns (Inr 10), CancelStep] = None"
  by (simp add: step_defs init_def conns_capacity_def)

subsection \<open>Errors of Accept\<close>

text \<open>
  Claim C5. In a live process, an error returned by \<^verbatim>\<open>Accept\<close> takes the accept
  goroutine to the test of \<^verbatim>\<open>ctx.Err()\<close> and nowhere else: from there it cannot
  accept again before the test. The test leaves the loop, with nothing logged,
  when the cancellation has been triggered, and otherwise logs the error and
  goes back to \<^verbatim>\<open>Accept\<close>. After leaving the loop the goroutine closes
  \<^verbatim>\<open>conns\<close> and the listener and returns, still with nothing logged.
\<close>

theorem accept_error_checks_cancellation:
  assumes "alive s"
  shows "(accepter s = Accepting \<longrightarrow>
            step s (AcceptReturns (Inl err)) = Some (s\<lparr>accepter := AcceptFailed err\<rparr>)) \<and>
         (accepter s = AcceptFailed err \<longrightarrow>
            (\<forall>r. step s (AcceptReturns r) = None) \<and>
            step s AcceptStep =
              Some (if cancelled s then s\<lparr>accepter := AcceptCloseConns\<rparr>
                    else s\<lparr>logs := logs s @ [''Error accepting connection: '' @ err],
                           accepter := Accepting\<rparr>)) \<and>
         (accepter s = AcceptFailed err \<and> cancelled s \<longrightarrow>
            run s [AcceptStep, AcceptStep, AcceptStep] =
              Some (s\<lparr>conns_closed := True, listener_closed := True, accepter := AcceptReturned\<rparr>))"
  using assms by (auto simp: step_def alive_def accept_returns_def accept_step_def)

theorem accept_error_checks_cancellation_witness:
  "alive init \<and> accepter init = Accepting \<and>
   run init [AcceptReturns (Inl ''too many open files''), AcceptStep] =
     Some (init\<lparr>logs := [''Error accepting connection: too many open files'']\<rparr>) \<and>
   run (init\<lparr>cancelled := True\<rparr>) [AcceptReturns (Inl ''use of closed network connection''), AcceptStep] =
     Some (init\<lparr>cancelled := True, accepter := AcceptCloseConns\<rparr>)"
proof -
  have al: "alive init" "alive (init\<lparr>cancelled := True\<rparr>)"
    "alive (init\<lparr>accepter := AcceptFailed ''too many open files''\<rparr>)"
    "alive (init\<lparr>cancelled := True, accepter := AcceptFailed ''use of closed network connection''\<rparr>)"
    by (simp_all add: alive_def init_def)
  have ac: "accepter init = Accepting" "accepter (init\<lparr>cancelled := True\<rparr>) = Accepting"
    by (simp_all add: init_def)
  from accept_error_checks_cancellation[OF al(1), of "''too many open files''"]
    accept_error_checks_cancellation[OF al(3), of "''too many open files''"]
    accept_error_checks_cancellation[OF al(2), of "''use of closed network connection''"]
    accept_error_checks_cancellation[OF al(4), of "''use of closed network connection''"]
    al(1) ac
  show ?thesis by (simp add: init_def)
qed

subsection \<open>Registration comes before the dial\<close>

text \<open>
  Claim C10. In every execution, a handler that is at its remote dial or past
  it, whether the dial failed or not, has its connection in \<^verbatim>\<open>conns\<close>, the
  registry that the cancellation goroutine drains at shutdown; the only
  exception is a connection that the cancellation goroutine, already in its
  loop, has taken out of \<^verbatim>\<open>conns\<close> and is closing or has closed.
\<close>

theorem registered_before_dial:
  assumes "run init as = Some s"
    and "handler s c = Dialing \<or> handler s c = WaitDone \<or> handler s c = CloseRemote \<or>
         handler s c = CloseLocal \<or> handler s c = HandlerReturned"
  shows "c \<in> set (conns s) \<or>
         (canceller s \<noteq> CancelWait \<and> canceller s \<noteq> CancelCloseListener \<and>
          (canceller s = CancelCloseConn c \<or> c \<in> local_closed s))"
  using registry_inv_run[OF assms(1) init_invs(2)[of c]] assms(2)
  unfolding registry_inv_def by blast

theorem registered_before_dial_witness:
  "run init [AcceptReturns (Inr 0), HandlerStep 0, DialReturns 0 (Some ''unreachable''), HandlerStep 0]
     = Some (dialing_state\<lparr>logs := [''Failed to connect to remote host: unreachable''],
              local_closed := {0}, handler := (handler dialing_state)(0 := HandlerReturned)\<rparr>) \<and>
   handler (dialing_state\<lparr>logs := [''Failed to connect to remote host: unreachable''],
              local_closed := {0}, handler := (handler dialing_state)(0 := HandlerReturned)\<rparr>) 0
     = HandlerReturned \<and>
   canceller (dialing_state\<lparr>logs := [''Failed to connect to remote host: unreachable''],
              local_closed := {0}, handler := (handler dialing_state)(0 := HandlerReturned)\<rparr>)
     = CancelWait \<and>
   0 \<in> set (conns (dialing_state\<lparr>logs := [''Failed to connect to remote host: unreachable''],
              local_closed := {0}, handler := (handler dialing_state)(0 := HandlerReturned)\<rparr>))"
proof -
  let ?s = "dialing_state\<lparr>logs := [''Failed to connect to remote host: unreachable''],
              local_closed := {0}, handler := (handler dialing_state)(0 := HandlerReturned)\<rparr>"
  have r: "run init [AcceptReturns (Inr 0), HandlerStep 0, DialReturns 0 (Some ''unreachable''), HandlerStep 0]
     = Some ?s"
    by (simp add: step_defs init_def conns_capacity_def dialing_state_def)
  have h: "handler ?s 0 = HandlerReturned" by simp
  have c: "canceller ?s = CancelWait" by (simp add: dialing_state_def init_def)
  from registered_before_dial[OF r, of 0] h c have "0 \<in> set (conns ?s)" by simp
  with r h c show ?thesis by blast
qed

end
